theory Spec2Isabelle
  imports Complex_Main "HOL-Library.Char_ord" "HOL-Library.List_Lexorder"
    "HOL-Library.Product_Lexorder" "HOL-Library.AList"
begin

section \<open>Data model: tables of cells\<close>

text \<open>
  A pandas DataFrame is a list of column names and a list of rows; a row gives a cell for
  a column name (a name that is not among the columns is never read). A cell is a number,
  a text, a timestamp or the missing value (NaN, NaT). Numbers are exact rationals, so
  a sum in the model is the exact sum that the floating-point sum approximates.
  A timestamp is year, month, day and the time within the day.
\<close>

type_synonym date = "nat \<times> nat \<times> nat \<times> nat"

datatype cell = Null | Num rat | Str string | Date date

type_synonym row = "string \<Rightarrow> cell"

record dataframe =
  columns :: "string list"
  rows :: "row list"

datatype error = KeyError | ValueError | NonNumeric

text \<open>\<^verbatim>\<open>pd.DataFrame()\<close> and \<^verbatim>\<open>df.empty\<close> (true when either axis has length 0).\<close>

definition empty_df :: dataframe where
  "empty_df = \<lparr>columns = [], rows = []\<rparr>"

definition df_empty :: "dataframe \<Rightarrow> bool" where
  "df_empty df = (columns df = [] \<or> rows df = [])"

definition no_row :: row where
  "no_row = (\<lambda>c. Null)"

section \<open>config.py: safe arithmetic\<close>

text \<open>
  \<^verbatim>\<open>safe_divide(numerator, denominator, default=0.0)\<close> and
  \<^verbatim>\<open>safe_pct_change(new_val, old_val, default=0.0)\<close>. An argument is a number or
  Python's \<^verbatim>\<open>None\<close>; arithmetic on \<^verbatim>\<open>None\<close> raises TypeError, which both
  functions catch and answer with the default.
\<close>

definition safe_divide :: "rat option \<Rightarrow> rat option \<Rightarrow> rat \<Rightarrow> rat" where
  "safe_divide numerator denominator dflt =
     (case denominator of
        None \<Rightarrow> dflt
      | Some d \<Rightarrow>
          if d = 0 then dflt
          else (case numerator of None \<Rightarrow> dflt | Some n \<Rightarrow> n / d))"

definition safe_pct_change :: "rat option \<Rightarrow> rat option \<Rightarrow> rat \<Rightarrow> rat" where
  "safe_pct_change new_val old_val dflt =
     (case old_val of
        None \<Rightarrow> dflt
      | Some old \<Rightarrow>
          if old = 0 then dflt
          else (case new_val of None \<Rightarrow> dflt | Some new \<Rightarrow> ((new - old) / old) * 100))"

text \<open>
  \<^verbatim>\<open>round(x, 2)\<close> on a float: the nearest multiple of 0.01, a tie going to the even
  neighbour.
\<close>

definition rint :: "rat \<Rightarrow> int" where
  "rint x =
     (let f = \<lfloor>x\<rfloor>; d = x - of_int f
      in if d < 1 / 2 then f
         else if 1 / 2 < d then f + 1
         else if even f then f else f + 1)"

definition round2 :: "rat \<Rightarrow> rat" where
  "round2 x = of_int (rint (x * 100)) / 100"

section \<open>aggregation.py\<close>

subsection \<open>Group-by and the reductions\<close>

text \<open>
  \<^verbatim>\<open>df.groupby(col, sort=True)\<close>: one group per distinct value of the column, rows with
  a missing key left out, the groups in ascending key order (numbers before texts where
  a column mixes them), the rows of a group in table order.
\<close>

fun cell_key :: "cell \<Rightarrow> nat \<times> rat \<times> string \<times> date" where
  "cell_key (Num x) = (0, x, [], (0, 0, 0, 0))"
| "cell_key (Str s) = (1, 0, s, (0, 0, 0, 0))"
| "cell_key (Date d) = (2, 0, [], d)"
| "cell_key Null = (3, 0, [], (0, 0, 0, 0))"

definition group_keys :: "string \<Rightarrow> row list \<Rightarrow> cell list" where
  "group_keys c rs = sort_key cell_key (remdups (filter (\<lambda>v. v \<noteq> Null) (map (\<lambda>r. r c) rs)))"

definition group_of :: "string \<Rightarrow> row list \<Rightarrow> cell \<Rightarrow> row list" where
  "group_of c rs k = filter (\<lambda>r. r c = k) rs"

text \<open>
  The reductions \<^verbatim>\<open>"sum"\<close> (missing values are skipped, an all-missing group sums
  to 0), \<^verbatim>\<open>"count"\<close> (cells that are not missing) and \<^verbatim>\<open>"nunique"\<close> (distinct
  values that are not missing). The summed columns of a cleaned table are float64: every
  cell is a number or NaN. A table with another kind of cell in a summed column is outside
  the model and is answered with \<open>NonNumeric\<close>.
\<close>

fun cell_num :: "cell \<Rightarrow> rat" where
  "cell_num (Num x) = x"
| "cell_num _ = 0"

fun is_float :: "cell \<Rightarrow> bool" where
  "is_float Null = True"
| "is_float (Num x) = True"
| "is_float _ = False"

definition float_col :: "string \<Rightarrow> row list \<Rightarrow> bool" where
  "float_col c rs = list_all (\<lambda>r. is_float (r c)) rs"

definition agg_sum :: "string \<Rightarrow> row list \<Rightarrow> rat" where
  "agg_sum c rs = sum_list (map (\<lambda>r. cell_num (r c)) rs)"

definition agg_count :: "string \<Rightarrow> row list \<Rightarrow> nat" where
  "agg_count c rs = length (filter (\<lambda>r. r c \<noteq> Null) rs)"

definition agg_nunique :: "string \<Rightarrow> row list \<Rightarrow> nat" where
  "agg_nunique c rs = length (remdups (filter (\<lambda>v. v \<noteq> Null) (map (\<lambda>r. r c) rs)))"

text \<open>The lambda of \<^verbatim>\<open>monthly.apply(..., axis=1)\<close>.\<close>

definition avg_order_value :: "rat \<Rightarrow> nat \<Rightarrow> rat" where
  "avg_order_value total_revenue total_orders =
     round2 (safe_divide (Some total_revenue) (Some (of_nat total_orders)) 0)"

subsection \<open>build_monthly_summary\<close>

text \<open>
  \<^verbatim>\<open>.agg(agg_dict)\<close> raises KeyError when a column named in the dictionary is not in
  the table; \<^verbatim>\<open>cost\<close> and \<^verbatim>\<open>marketing_spend\<close> are only named when present.
  When no row has a key there is no group, and the summary has its columns and no row.
\<close>

definition monthly_row :: "bool \<Rightarrow> bool \<Rightarrow> cell \<Rightarrow> row list \<Rightarrow> row" where
  "monthly_row has_cost has_spend k g =
     (let r0 = no_row(''year_month'' := k,
                 ''total_revenue'' := Num (agg_sum ''revenue'' g),
                 ''total_orders'' := Num (of_nat (agg_count ''order_id'' g)),
                 ''unique_customers'' := Num (of_nat (agg_nunique ''customer_id'' g)));
          r1 = (if has_cost then r0(''total_cost'' := Num (agg_sum ''cost'' g)) else r0);
          r2 = (if has_spend
                then r1(''total_marketing_spend'' := Num (agg_sum ''marketing_spend'' g))
                else r1)
      in r2(''avg_order_value'' :=
              Num (avg_order_value (agg_sum ''revenue'' g) (agg_count ''order_id'' g))))"

definition build_monthly_summary :: "dataframe \<Rightarrow> error + dataframe" where
  "build_monthly_summary df =
     (if ''year_month'' \<notin> set (columns df) \<or> df_empty df then Inr empty_df
      else
        let has_cost = (''cost'' \<in> set (columns df));
            has_spend = (''marketing_spend'' \<in> set (columns df));
            agg_dict = [''revenue'', ''order_id'', ''customer_id'']
                       @ (if has_cost then [''cost''] else [])
                       @ (if has_spend then [''marketing_spend''] else []);
            summed = [''revenue''] @ (if has_cost then [''cost''] else [])
                       @ (if has_spend then [''marketing_spend''] else []);
            ks = group_keys ''year_month'' (rows df)
        in if \<not> list_all (\<lambda>c. c \<in> set (columns df)) agg_dict then Inl KeyError
           else if \<not> list_all (\<lambda>c. float_col c (rows df)) summed then Inl NonNumeric
           else Inr \<lparr>columns = [''year_month'', ''total_revenue'', ''total_orders'',
                                  ''unique_customers'']
                               @ (if has_cost then [''total_cost''] else [])
                               @ (if has_spend then [''total_marketing_spend''] else [])
                               @ [''avg_order_value''],
                     rows = map (\<lambda>k. monthly_row has_cost has_spend k
                                        (group_of ''year_month'' (rows df) k)) ks\<rparr>)"

subsection \<open>sort_values\<close>

text \<open>
  \<^verbatim>\<open>segment.sort_values("total_revenue", ascending=False)\<close> sorts by one column, so pandas
  takes the positions of the result from \<^verbatim>\<open>nargsort(k, kind="quicksort", ascending=False,
  na_position="last")\<close> and then takes the rows at these positions. The keys are the sums
  of the groups, none of them missing, so the mask of \<^verbatim>\<open>nargsort\<close> is empty and it does

  \<^verbatim>\<open>non_nans = items[::-1]; non_nan_idx = idx[::-1]\<close>

  \<^verbatim>\<open>indexer = non_nan_idx[non_nans.argsort(kind=kind)]; indexer = indexer[::-1]\<close>

  that is: reverse the keys, sort the reversed keys ascending, map the positions back,
  reverse the result. The ascending sort is numpy's \<^verbatim>\<open>argsort\<close>, a parameter of
  \<open>nargsort_desc\<close> and of \<open>build_segment_summary\<close>. Its portable routine for kind
  quicksort on doubles, \<^verbatim>\<open>aquicksort_\<close> of \<^verbatim>\<open>npysort/quicksort.cpp\<close>, is
  \<open>npy_aquicksort\<close> below (a build of numpy that hands \<^verbatim>\<open>argsort\<close> to vectorised code
  for the processor at hand does not run this routine).
\<close>

definition nargsort_desc :: "(rat list \<Rightarrow> nat list) \<Rightarrow> rat list \<Rightarrow> nat list" where
  "nargsort_desc argsort items =
     (let idx = [0..<length items];
          non_nans = rev items;
          non_nan_idx = rev idx;
          indexer = map (\<lambda>j. non_nan_idx ! j) (argsort non_nans)
      in rev indexer)"

definition sort_values_desc :: "(rat list \<Rightarrow> nat list) \<Rightarrow> string \<Rightarrow> row list \<Rightarrow> row list" where
  "sort_values_desc srt c rs =
     map (\<lambda>i. rs ! i) (nargsort_desc srt (map (\<lambda>r. cell_num (r c)) rs))"

subsection \<open>numpy's quicksort on positions\<close>

text \<open>
  \<^verbatim>\<open>aquicksort_(v, tosort, num)\<close> sorts the positions \<open>tosort = [0, \<dots>, num - 1]\<close> by the
  keys \<open>v\<close>. It works on one range \<open>pl .. pr\<close> of \<open>tosort\<close> at a time, here the list
  \<open>seg\<close> of the positions in the range, with \<open>key j = v ! j\<close>:

  \<^item> while \<^verbatim>\<open>pr - pl > SMALL_QUICKSORT\<close> (the range holds more than 17 positions) it
    partitions the range around the median of its first, middle and last key, pushes
    the larger part on a stack and goes on with the smaller one;
  \<^item> a range with \<^verbatim>\<open>pr - pl <= SMALL_QUICKSORT\<close> is sorted by insertion;
  \<^item> every partition lowers \<^verbatim>\<open>cdepth\<close>, which starts at \<^verbatim>\<open>2 * npy_get_msb(num)\<close>; a
    range popped from the stack with \<^verbatim>\<open>cdepth < 0\<close> is handed to \<^verbatim>\<open>aheapsort_\<close>.

  The ranges are disjoint, so the order in which the stack is worked off does not
  matter and the loop is a recursion on the two parts. \<^verbatim>\<open>aheapsort_\<close> is a parameter;
  what is assumed of it is \<open>aheapsort_ok\<close>: it returns the positions it was given,
  sorted by their keys.
\<close>

definition SMALL_QUICKSORT :: nat where
  "SMALL_QUICKSORT = 16"

fun npy_get_msb :: "nat \<Rightarrow> nat" where
  "npy_get_msb n = (if n < 2 then 0 else Suc (npy_get_msb (n div 2)))"

declare npy_get_msb.simps [simp del]

text \<open>
  The insertion sort: each position in turn moves left past the positions before it
  whose key is greater (\<^verbatim>\<open>while (pj > pl && less(vp, v[*pk])) *pj-- = *pk--\<close>).
\<close>

function insert_last :: "('a \<Rightarrow> rat) \<Rightarrow> 'a \<Rightarrow> 'a list \<Rightarrow> 'a list" where
  "insert_last key x ys =
     (if ys \<noteq> [] \<and> key x < key (last ys) then insert_last key x (butlast ys) @ [last ys]
      else ys @ [x])"
  by pat_completeness auto
termination
  by (relation "measure (\<lambda>(key, x, ys). length ys)") auto

declare insert_last.simps [simp del]

definition insertion_sort :: "('a \<Rightarrow> rat) \<Rightarrow> 'a list \<Rightarrow> 'a list" where
  "insertion_sort key xs = foldl (\<lambda>ys x. insert_last key x ys) [] xs"

text \<open>
  The partition. \<^verbatim>\<open>INTP_SWAP\<close> is \<open>swap\<close>. The three conditional swaps leave the
  median of the first, middle and last key in the middle; it is the pivot \<open>vp\<close> and is
  put aside at \<open>pr - 1\<close>. Then \<open>i\<close> moves right over keys less than \<open>vp\<close> and \<open>j\<close>
  moves left over keys greater than \<open>vp\<close> (both stop at a key equal to \<open>vp\<close>), the two
  positions are swapped, until \<open>i\<close> and \<open>j\<close> meet; the pivot is swapped to \<open>i\<close>.
\<close>

definition swap :: "'a list \<Rightarrow> nat \<Rightarrow> nat \<Rightarrow> 'a list" where
  "swap xs i j = xs[i := xs ! j, j := xs ! i]"

definition swap_if_less :: "('a \<Rightarrow> rat) \<Rightarrow> 'a list \<Rightarrow> nat \<Rightarrow> nat \<Rightarrow> 'a list" where
  "swap_if_less key xs i j = (if key (xs ! i) < key (xs ! j) then swap xs i j else xs)"

definition median_of_three :: "('a \<Rightarrow> rat) \<Rightarrow> 'a list \<Rightarrow> 'a list" where
  "median_of_three key xs =
     (let pr = length xs - 1;
          pm = pr div 2;
          xs1 = swap_if_less key xs pm 0;
          xs2 = swap_if_less key xs1 pr pm
      in swap_if_less key xs2 pm 0)"

function hoare :: "('a \<Rightarrow> rat) \<Rightarrow> rat \<Rightarrow> 'a list \<Rightarrow> nat \<Rightarrow> nat \<Rightarrow> 'a list \<times> nat" where
  "hoare key vp xs i j =
     (let i' = i + 1 + length (takeWhile (\<lambda>x. key x < vp) (drop (i + 1) xs));
          j' = j - 1 - length (takeWhile (\<lambda>x. vp < key x) (rev (take j xs)))
      in if j' \<le> i' then (xs, i') else hoare key vp (swap xs i' j') i' j')"
  by pat_completeness auto
termination
  by (relation "measure (\<lambda>(key, vp, xs, i, j). j - i)") auto

declare hoare.simps [simp del]

definition quicksort_partition :: "('a \<Rightarrow> rat) \<Rightarrow> 'a list \<Rightarrow> 'a list \<times> 'a \<times> 'a list" where
  "quicksort_partition key xs =
     (let pr = length xs - 1;
          pm = pr div 2;
          xs3 = median_of_three key xs;
          vp = key (xs3 ! pm);
          xs4 = swap xs3 pm (pr - 1);
          (xs5, i) = hoare key vp xs4 0 (pr - 1);
          xs6 = swap xs5 i (pr - 1)
      in (take i xs6, xs6 ! i, drop (i + 1) xs6))"

text \<open>
  The loop. \<open>popped\<close> tells that the range comes from the stack (or is the whole array),
  where \<^verbatim>\<open>cdepth < 0\<close> is tested; the part the loop goes on with is not tested. The
  recursion ends because both parts of a partition are shorter than the range: \<open>i\<close>
  stops at the pivot at \<open>pr - 1\<close> at the latest.
\<close>

function aquicksort_loop ::
  "(('a \<Rightarrow> rat) \<Rightarrow> 'a list \<Rightarrow> 'a list) \<Rightarrow> bool \<Rightarrow> int \<Rightarrow> ('a \<Rightarrow> rat) \<Rightarrow> 'a list \<Rightarrow> 'a list" where
  "aquicksort_loop aheapsort popped cdepth key seg =
     (if popped \<and> cdepth < 0 then aheapsort key seg
      else if SMALL_QUICKSORT < length seg - 1
      then (case quicksort_partition key seg of (l, p, r) \<Rightarrow>
              if length l < length r
              then aquicksort_loop aheapsort False (cdepth - 1) key l @ [p]
                   @ aquicksort_loop aheapsort True (cdepth - 1) key r
              else aquicksort_loop aheapsort True (cdepth - 1) key l @ [p]
                   @ aquicksort_loop aheapsort False (cdepth - 1) key r)
      else insertion_sort key seg)"
  by pat_completeness auto
termination
proof -
  have sentinel: "i' \<le> q \<and> length xs' = length xs \<and> xs' ! q = xs ! q"
    if "hoare key vp xs i j = (xs', i')" "i < q" "j \<le> q" "q < length xs"
      "\<not> key (xs ! q) < vp"
    for key :: "'a \<Rightarrow> rat" and vp xs i j xs' i' q
    using that
  proof (induction key vp xs i j arbitrary: xs' i' rule: hoare.induct)
    case (1 key vp xs i j)
    define a where "a = i + 1 + length (takeWhile (\<lambda>x. key x < vp) (drop (i + 1) xs))"
    define b where "b = j - 1 - length (takeWhile (\<lambda>x. vp < key x) (rev (take j xs)))"
    have aq: "a \<le> q"
    proof (rule ccontr)
      assume "\<not> a \<le> q"
      then have "q - (i + 1) < length (takeWhile (\<lambda>x. key x < vp) (drop (i + 1) xs))"
        using 1(3) by (simp add: a_def)
      then have "key (drop (i + 1) xs ! (q - (i + 1))) < vp"
        by (metis nth_mem set_takeWhileD takeWhile_nth)
      with 1(3,5,6) show False by simp
    qed
    show ?case
    proof (cases "b \<le> a")
      case True
      with 1(2) have "xs' = xs" "i' = a"
        by (subst (asm) hoare.simps, auto simp: Let_def a_def b_def)+
      with aq show ?thesis by simp
    next
      case False
      with 1(2) have h: "hoare key vp (swap xs a b) a b = (xs', i')"
        by (subst (asm) hoare.simps) (auto simp: Let_def a_def b_def)
      from False have ab: "a < b" by simp
      have bj: "b < j" using ab by (simp add: b_def)
      with 1(4) have bq: "b < q" by simp
      have sq: "swap xs a b ! q = xs ! q"
        using ab bq by (simp add: swap_def)
      have "i' \<le> q \<and> length xs' = length (swap xs a b) \<and> xs' ! q = swap xs a b ! q"
        using ab bq 1(5,6) sq
        by (intro 1(1) [OF a_def b_def False h]) (simp_all add: swap_def)
      with sq show ?thesis by (simp add: swap_def)
    qed
  qed
  have shorter: "length l < length xs \<and> length r < length xs"
    if "quicksort_partition key xs = (l, p, r)" "3 \<le> length xs"
    for key :: "'a \<Rightarrow> rat" and xs l p r
  proof -
    define pr where "pr = length xs - 1"
    define pm where "pm = pr div 2"
    define xs3 where "xs3 = median_of_three key xs"
    define vp where "vp = key (xs3 ! pm)"
    define xs4 where "xs4 = swap xs3 pm (pr - 1)"
    obtain xs5 i where h: "hoare key vp xs4 0 (pr - 1) = (xs5, i)"
      by (cases "hoare key vp xs4 0 (pr - 1)")
    define xs6 where "xs6 = swap xs5 i (pr - 1)"
    from that(1) h have res: "l = take i xs6" "r = drop (i + 1) xs6"
      unfolding quicksort_partition_def Let_def pr_def [symmetric]
      unfolding pm_def [symmetric] xs3_def [symmetric]
      unfolding vp_def [symmetric] xs4_def [symmetric]
      by (simp_all add: xs6_def)
    have l3: "length xs3 = length xs"
      by (simp add: xs3_def median_of_three_def swap_if_less_def swap_def Let_def)
    have len: "length xs4 = length xs"
      by (simp add: xs4_def swap_def l3)
    from that(2) have b: "pm < length xs" "pr - 1 < length xs" "0 < pr - 1"
      by (simp_all add: pm_def pr_def)
    have "xs4 ! (pr - 1) = xs3 ! pm"
      using b by (simp add: xs4_def swap_def l3)
    then have "\<not> key (xs4 ! (pr - 1)) < vp"
      by (simp add: vp_def)
    from sentinel [OF h b(3) order_refl _ this] b(2) len
    have "i \<le> pr - 1" "length xs5 = length xs" by simp_all
    with b(2) res show ?thesis
      by (simp add: xs6_def swap_def)
  qed
  show ?thesis
    by (relation "measure (\<lambda>(aheapsort, popped, cdepth, key, seg). length seg)")
       (auto simp: SMALL_QUICKSORT_def dest: shorter [OF sym])
qed

declare aquicksort_loop.simps [simp del]


definition npy_aquicksort ::
  "((nat \<Rightarrow> rat) \<Rightarrow> nat list \<Rightarrow> nat list) \<Rightarrow> rat list \<Rightarrow> nat list" where
  "npy_aquicksort aheapsort v =
     aquicksort_loop aheapsort True (2 * int (npy_get_msb (length v))) (\<lambda>j. v ! j)
       [0..<length v]"

subsection \<open>build_segment_summary\<close>

definition segment_row :: "cell \<Rightarrow> row list \<Rightarrow> row" where
  "segment_row k g =
     no_row(''segment'' := k,
       ''total_revenue'' := Num (agg_sum ''revenue'' g),
       ''total_orders'' := Num (of_nat (agg_count ''order_id'' g)),
       ''unique_customers'' := Num (of_nat (agg_nunique ''customer_id'' g)),
       ''avg_order_value'' :=
          Num (avg_order_value (agg_sum ''revenue'' g) (agg_count ''order_id'' g)))"

text \<open>
  Grouping by one of the aggregated columns themselves makes \<^verbatim>\<open>reset_index()\<close> raise
  ValueError (the key cannot be inserted beside the aggregate of the same name).
\<close>

definition build_segment_summary ::
  "(rat list \<Rightarrow> nat list) \<Rightarrow> dataframe \<Rightarrow> string \<Rightarrow> error + dataframe" where
  "build_segment_summary srt df segment_col =
     (if segment_col \<notin> set (columns df) \<or> df_empty df then Inr empty_df
      else
        let agg_dict = [''revenue'', ''order_id'', ''customer_id''];
            ks = group_keys segment_col (rows df)
        in if \<not> list_all (\<lambda>c. c \<in> set (columns df)) agg_dict then Inl KeyError
           else if \<not> float_col ''revenue'' (rows df) then Inl NonNumeric
           else if segment_col \<in> set agg_dict then Inl ValueError
           else Inr \<lparr>columns = [''segment'', ''total_revenue'', ''total_orders'',
                                  ''unique_customers'', ''avg_order_value''],
                     rows = sort_values_desc srt ''total_revenue''
                              (map (\<lambda>k. segment_row k (group_of segment_col (rows df) k)) ks)\<rparr>)"

subsection \<open>build_daily_summary\<close>

definition daily_row :: "cell \<Rightarrow> row list \<Rightarrow> row" where
  "daily_row k g =
     no_row(''date'' := k,
       ''daily_revenue'' := Num (agg_sum ''revenue'' g),
       ''daily_orders'' := Num (of_nat (agg_count ''order_id'' g)))"

definition build_daily_summary :: "dataframe \<Rightarrow> error + dataframe" where
  "build_daily_summary df =
     (if ''date'' \<notin> set (columns df) \<or> df_empty df then Inr empty_df
      else
        let agg_dict = [''revenue'', ''order_id''];
            ks = group_keys ''date'' (rows df)
        in if \<not> list_all (\<lambda>c. c \<in> set (columns df)) agg_dict then Inl KeyError
           else if \<not> float_col ''revenue'' (rows df) then Inl NonNumeric
           else Inr \<lparr>columns = [''date'', ''daily_revenue'', ''daily_orders''],
                     rows = map (\<lambda>k. daily_row k (group_of ''date'' (rows df) k)) ks\<rparr>)"

section \<open>Text functions of Python\<close>

text \<open>
  Texts are lists of bytes (UTF-8). \<^verbatim>\<open>str.strip()\<close> and \<^verbatim>\<open>str.lower()\<close> are
  modelled on ASCII: the ASCII whitespace characters are stripped, the letters A to Z are
  lowered, every other byte is kept.
\<close>

definition is_space :: "char \<Rightarrow> bool" where
  "is_space c = (c \<in> set [CHR 0x09, CHR 0x0A, CHR 0x0B, CHR 0x0C, CHR 0x0D,
                           CHR 0x1C, CHR 0x1D, CHR 0x1E, CHR 0x1F, CHR '' ''])"

definition str_strip :: "string \<Rightarrow> string" where
  "str_strip s = rev (dropWhile is_space (rev (dropWhile is_space s)))"

definition lower_char :: "char \<Rightarrow> char" where
  "lower_char c =
     (case map_of (zip ''ABCDEFGHIJKLMNOPQRSTUVWXYZ'' ''abcdefghijklmnopqrstuvwxyz'') c of
        Some l \<Rightarrow> l
      | None \<Rightarrow> c)"

definition str_lower :: "string \<Rightarrow> string" where
  "str_lower s = map lower_char s"

text \<open>\<^verbatim>\<open>str(n)\<close> of a natural number, as an f-string prints it.\<close>

fun str_nat :: "nat \<Rightarrow> string" where
  "str_nat n =
     (if n < 10 then [''0123456789'' ! n]
      else str_nat (n div 10) @ [''0123456789'' ! (n mod 10)])"

declare str_nat.simps [simp del]

section \<open>config.py: the canonical schema\<close>

definition REQUIRED_COLUMNS :: "string list" where
  "REQUIRED_COLUMNS = [''date'', ''order_id'', ''customer_id'', ''revenue'']"

definition OPTIONAL_COLUMNS :: "string list" where
  "OPTIONAL_COLUMNS =
     [''cost'', ''channel'', ''region'', ''category'', ''device'', ''marketing_spend'']"

definition COLUMN_ALIASES :: "(string \<times> string list) list" where
  "COLUMN_ALIASES =
     [(''date'',
         [''date'', ''order_date'', ''purchase_date'', ''transaction_date'',
          ''created_at'', ''created_date'', ''sale_date'', ''invoice_date'',
          ''dt'', ''dates'']),
      (''order_id'',
         [''order_id'', ''orderid'', ''order_number'', ''order_no'',
          ''transaction_id'', ''txn_id'', ''invoice_id'', ''id'']),
      (''customer_id'',
         [''customer_id'', ''customerid'', ''cust_id'', ''custid'',
          ''client_id'', ''user_id'', ''userid'', ''buyer_id'']),
      (''revenue'',
         [''revenue'', ''sales'', ''amount'', ''total_amount'', ''order_value'',
          ''total_sales'', ''total_revenue'', ''sale_amount'', ''gmv'',
          ''gross_revenue'', ''net_revenue'', ''price'', ''total_price'',
          ''order_amount'', ''transaction_amount'']),
      (''cost'',
         [''cost'', ''total_cost'', ''cogs'', ''cost_of_goods'',
          ''expense'', ''product_cost'']),
      (''channel'',
         [''channel'', ''source'', ''traffic_source'', ''acquisition_channel'',
          ''utm_source'', ''marketing_channel'', ''medium'']),
      (''region'',
         [''region'', ''location'', ''area'', ''zone'', ''city'',
          ''state'', ''country'', ''geography'', ''geo'']),
      (''category'',
         [''category'', ''product_category'', ''item_category'',
          ''department'', ''product_type'', ''type'', ''segment'']),
      (''device'',
         [''device'', ''device_type'', ''platform'', ''device_category'']),
      (''marketing_spend'',
         [''marketing_spend'', ''ad_spend'', ''spend'', ''marketing_cost'',
          ''advertising_cost'', ''campaign_cost'', ''media_spend''])]"

definition DATE_FORMATS :: "string list" where
  "DATE_FORMATS =
     [''%Y-%m-%d'', ''%d-%m-%Y'', ''%m-%d-%Y'', ''%d/%m/%Y'', ''%m/%d/%Y'',
      ''%Y/%m/%d'', ''%d %b %Y'', ''%d %B %Y'', ''%b %d, %Y'', ''%B %d, %Y'']"

definition TEXT_COLUMNS :: "string list" where
  "TEXT_COLUMNS = [''channel'', ''region'', ''category'', ''device'']"

text \<open>
  \<^verbatim>\<open>CURRENCY_SYMBOLS\<close>: rupee, dollar, euro, pound and yen signs and the comma, each as
  its UTF-8 bytes.
\<close>

definition CURRENCY_SYMBOLS :: "string list" where
  "CURRENCY_SYMBOLS =
     [[CHR 0xE2, CHR 0x82, CHR 0xB9], ''$'', [CHR 0xE2, CHR 0x82, CHR 0xAC],
      [CHR 0xC2, CHR 0xA3], [CHR 0xC2, CHR 0xA5], '','']"

section \<open>schema_detection.py\<close>

definition normalize_col_name :: "string \<Rightarrow> string" where
  "normalize_col_name name =
     map (\<lambda>c. if c = CHR '' '' then CHR ''_'' else c) (str_lower (str_strip name))"

text \<open>
  \<^verbatim>\<open>_deduplicate_columns\<close>: the dictionary \<open>seen\<close> counts the repetitions of a name;
  a repeated name gets the count as suffix.
\<close>

fun dedup_loop :: "(string \<rightharpoonup> nat) \<Rightarrow> string list \<Rightarrow> string list" where
  "dedup_loop seen [] = []"
| "dedup_loop seen (col # cols) =
     (case seen col of
        Some n \<Rightarrow> (col @ ''_'' @ str_nat (n + 1)) # dedup_loop (seen(col \<mapsto> n + 1)) cols
      | None \<Rightarrow> col # dedup_loop (seen(col \<mapsto> 0)) cols)"

definition deduplicate_columns :: "string list \<Rightarrow> string list" where
  "deduplicate_columns cols = dedup_loop Map.empty cols"

text \<open>
  The mapping loop of \<^verbatim>\<open>detect_and_map\<close>. Both dictionaries are association lists in
  insertion order; \<open>find_alias\<close> is the inner loop over the aliases of one field, up to
  its \<^verbatim>\<open>break\<close>.
\<close>

definition aliases_of :: "string \<Rightarrow> string list" where
  "aliases_of standard_col =
     (case map_of COLUMN_ALIASES standard_col of Some al \<Rightarrow> al | None \<Rightarrow> [standard_col])"

fun find_alias :: "string list \<Rightarrow> (string \<times> string) list \<Rightarrow> string list \<Rightarrow> string option" where
  "find_alias cols rename_map [] = None"
| "find_alias cols rename_map (alias # aliases) =
     (let normalized_alias = normalize_col_name alias
      in if normalized_alias \<in> set cols \<and> normalized_alias \<notin> set (map fst rename_map)
         then Some normalized_alias
         else find_alias cols rename_map aliases)"

fun build_mapping ::
  "string list \<Rightarrow> string list \<Rightarrow> (string \<times> string) list \<times> (string \<times> string) list
     \<Rightarrow> (string \<times> string) list \<times> (string \<times> string) list" where
  "build_mapping cols [] (mapping, rename_map) = (mapping, rename_map)"
| "build_mapping cols (standard_col # rest) (mapping, rename_map) =
     (case find_alias cols rename_map (aliases_of standard_col) of
        None \<Rightarrow> build_mapping cols rest (mapping, rename_map)
      | Some normalized_alias \<Rightarrow>
          build_mapping cols rest
            (AList.update standard_col normalized_alias mapping,
             if normalized_alias \<noteq> standard_col
             then AList.update normalized_alias standard_col rename_map
             else rename_map))"

text \<open>
  \<^verbatim>\<open>detect_and_map\<close> on the header of the table (the rows are copied unchanged): the
  renamed column names, the mapping and the missing required fields.
\<close>

definition rename_columns :: "(string \<times> string) list \<Rightarrow> string list \<Rightarrow> string list" where
  "rename_columns rename_map cols =
     map (\<lambda>c. case map_of rename_map c of Some s \<Rightarrow> s | None \<Rightarrow> c) cols"

definition detect_and_map ::
  "string list \<Rightarrow> string list \<times> (string \<times> string) list \<times> string list" where
  "detect_and_map raw_columns =
     (let cols = deduplicate_columns (map normalize_col_name raw_columns);
          all_standard = REQUIRED_COLUMNS @ OPTIONAL_COLUMNS;
          (mapping, rename_map) = build_mapping cols all_standard ([], []);
          missing_required = filter (\<lambda>col. col \<notin> set (map fst mapping)) REQUIRED_COLUMNS
      in (rename_columns rename_map cols, mapping, missing_required))"

section \<open>data_cleaning.py\<close>

subsection \<open>The library functions\<close>

text \<open>
  The cleaner calls into pandas for parsing. These functions are parameters of the model:
  \<^item> \<open>to_datetime\<close>: \<^verbatim>\<open>pd.to_datetime(series, errors="coerce", infer_datetime_format=True)\<close>,
    on the whole column (the format is inferred from the column), \<open>None\<close> for NaT;
  \<^item> \<open>to_datetime_format\<close>: \<^verbatim>\<open>pd.to_datetime(series, format=fmt, errors="coerce")\<close>,
    \<open>None\<close> when the call raises (the source then goes on to the next format);
  \<^item> \<open>to_numeric\<close>: \<^verbatim>\<open>pd.to_numeric(..., errors="coerce")\<close> on one text, \<open>None\<close> for NaN;
  \<^item> \<open>str_num\<close>, \<open>str_date\<close>: \<^verbatim>\<open>astype(str)\<close> on a number and on a timestamp;
  \<^item> \<open>delete_class\<close>: \<^verbatim>\<open>str.replace(pattern, "", regex=True)\<close> for the character class
    made of the given symbols and \<^verbatim>\<open>\s\<close>.
  \<open>parsers_ok\<close> is what is known of the two date parsers: a parsed column is as long as
  the column parsed.
\<close>

record pandas =
  to_datetime :: "cell list \<Rightarrow> date option list"
  to_datetime_format :: "string \<Rightarrow> cell list \<Rightarrow> date option list option"
  to_numeric :: "string \<Rightarrow> rat option"
  str_num :: "rat \<Rightarrow> string"
  str_date :: "date \<Rightarrow> string"
  delete_class :: "string list \<Rightarrow> string \<Rightarrow> string"

definition parsers_ok :: "pandas \<Rightarrow> bool" where
  "parsers_ok L =
     ((\<forall>s. length (to_datetime L s) = length s)
      \<and> (\<forall>fmt s a. to_datetime_format L fmt s = Some a \<longrightarrow> length a = length s))"

subsection \<open>_convert_dates\<close>

definition isna_count :: "date option list \<Rightarrow> nat" where
  "isna_count ds = length (filter (\<lambda>d. d = None) ds)"

definition notna_count :: "date option list \<Rightarrow> nat" where
  "notna_count ds = length (filter (\<lambda>d. d \<noteq> None) ds)"

definition series_isna_count :: "cell list \<Rightarrow> nat" where
  "series_isna_count s = length (filter (\<lambda>v. v = Null) s)"

text \<open>The loop over \<^verbatim>\<open>config.DATE_FORMATS\<close>; \<open>converted\<close> is the best parse so far.\<close>

fun try_formats :: "pandas \<Rightarrow> cell list \<Rightarrow> string list \<Rightarrow> date option list \<Rightarrow> date option list" where
  "try_formats L series [] converted = converted"
| "try_formats L series (fmt # fmts) converted =
     (case to_datetime_format L fmt series of
        None \<Rightarrow> try_formats L series fmts converted
      | Some attempt \<Rightarrow>
          try_formats L series fmts
            (if notna_count converted < notna_count attempt then attempt else converted))"

definition nat_ratio :: "date option list \<Rightarrow> cell list \<Rightarrow> rat" where
  "nat_ratio converted series = of_nat (isna_count converted) / of_nat (max (length series) 1)"

definition convert_dates :: "pandas \<Rightarrow> cell list \<Rightarrow> date option list \<times> nat" where
  "convert_dates L series =
     (let converted0 = to_datetime L series;
          converted = (if 1 / 2 < nat_ratio converted0 series
                       then try_formats L series DATE_FORMATS converted0
                       else converted0);
          invalid_count = nat (max 0 (int (isna_count converted) - int (series_isna_count series)))
      in (converted, invalid_count))"

subsection \<open>_clean_numeric\<close>

text \<open>\<^verbatim>\<open>astype(str)\<close> on a cell; the missing value NaN prints as \<^verbatim>\<open>nan\<close>.\<close>

definition astype_str :: "pandas \<Rightarrow> cell \<Rightarrow> string" where
  "astype_str L v =
     (case v of Null \<Rightarrow> ''nan'' | Str s \<Rightarrow> s | Num x \<Rightarrow> str_num L x | Date d \<Rightarrow> str_date L d)"

definition clean_numeric :: "pandas \<Rightarrow> cell \<Rightarrow> cell" where
  "clean_numeric L v =
     (let s = delete_class L CURRENCY_SYMBOLS (astype_str L v)
      in if s \<in> set [''nan'', '''', ''none'', ''null''] then Null
         else (case to_numeric L s of None \<Rightarrow> Null | Some x \<Rightarrow> Num x))"

subsection \<open>clean\<close>

record report =
  original_rows :: nat
  duplicates_removed :: nat
  null_rows_dropped :: nat
  invalid_dates :: nat
  invalid_revenue :: nat
  negative_revenue :: nat
  text_normalized :: nat
  final_rows :: nat

text \<open>
  Step 1, \<^verbatim>\<open>df.drop_duplicates(subset=["order_id"], keep="first")\<close>: a row is kept when
  no earlier row has its key; \<open>seen\<close> holds the keys met so far. Missing keys are equal
  to each other.
\<close>

fun drop_duplicates_first :: "string \<Rightarrow> cell list \<Rightarrow> row list \<Rightarrow> row list" where
  "drop_duplicates_first c seen [] = []"
| "drop_duplicates_first c seen (r # rs) =
     (if r c \<in> set seen then drop_duplicates_first c seen rs
      else r # drop_duplicates_first c (r c # seen) rs)"

definition step_duplicates :: "string list \<Rightarrow> row list \<Rightarrow> row list" where
  "step_duplicates cols rs =
     (if ''order_id'' \<in> set cols then drop_duplicates_first ''order_id'' [] rs else rs)"

text \<open>
  Step 2: the date column is replaced by the converted one, then
  \<^verbatim>\<open>df.dropna(subset=["date"])\<close>.
\<close>

definition date_cell :: "date option \<Rightarrow> cell" where
  "date_cell d = (case d of None \<Rightarrow> Null | Some t \<Rightarrow> Date t)"

definition set_dates :: "pandas \<Rightarrow> row list \<Rightarrow> row list" where
  "set_dates L rs =
     map (\<lambda>(r, d). r(''date'' := date_cell d))
       (zip rs (fst (convert_dates L (map (\<lambda>r. r ''date'') rs))))"

definition step_dates :: "pandas \<Rightarrow> string list \<Rightarrow> row list \<Rightarrow> row list" where
  "step_dates L cols rs =
     (if ''date'' \<in> set cols then filter (\<lambda>r. r ''date'' \<noteq> Null) (set_dates L rs) else rs)"

text \<open>
  A loop \<^verbatim>\<open>for col in names: if col in df.columns: df[col] = f(df[col])\<close> where \<open>f\<close>
  works cell by cell (steps 3, 5 and 6).
\<close>

definition update_columns :: "(cell \<Rightarrow> cell) \<Rightarrow> string list \<Rightarrow> string list \<Rightarrow> row list \<Rightarrow> row list" where
  "update_columns f names cols rs =
     fold (\<lambda>col rs. if col \<in> set cols then map (\<lambda>r. r(col := f (r col))) rs else rs) names rs"

definition step_numeric :: "pandas \<Rightarrow> string list \<Rightarrow> row list \<Rightarrow> row list" where
  "step_numeric L cols rs =
     update_columns (clean_numeric L) [''revenue'', ''cost'', ''marketing_spend''] cols rs"

text \<open>Step 4, \<^verbatim>\<open>df.dropna(subset=required_present, how="all")\<close>.\<close>

definition step_required :: "string list \<Rightarrow> row list \<Rightarrow> row list" where
  "step_required cols rs =
     (let required_present = filter (\<lambda>c. c \<in> set cols) REQUIRED_COLUMNS
      in if required_present \<noteq> []
         then filter (\<lambda>r. \<not> list_all (\<lambda>c. r c = Null) required_present) rs
         else rs)"

definition fillna0 :: "cell \<Rightarrow> cell" where
  "fillna0 v = (case v of Null \<Rightarrow> Num 0 | _ \<Rightarrow> v)"

definition step_fill :: "string list \<Rightarrow> row list \<Rightarrow> row list" where
  "step_fill cols rs = update_columns fillna0 [''cost'', ''marketing_spend''] cols rs"

text \<open>
  Step 6: \<^verbatim>\<open>astype(str).str.strip().str.lower()\<close>, then the value \<^verbatim>\<open>nan\<close> (and no
  other) is replaced by \<^verbatim>\<open>unknown\<close>.
\<close>

definition text_norm :: "pandas \<Rightarrow> cell \<Rightarrow> cell" where
  "text_norm L v =
     (let s = str_lower (str_strip (astype_str L v))
      in Str (if s = ''nan'' then ''unknown'' else s))"

definition step_text :: "pandas \<Rightarrow> string list \<Rightarrow> row list \<Rightarrow> row list" where
  "step_text L cols rs = update_columns (text_norm L) TEXT_COLUMNS cols rs"

text \<open>
  Step 7, \<^verbatim>\<open>df["date"].dt.to_period("M").astype(str)\<close>: the year and the two-digit
  month.
\<close>

definition zfill :: "nat \<Rightarrow> string \<Rightarrow> string" where
  "zfill n s = replicate (n - length s) (CHR ''0'') @ s"

fun year_month_of :: "cell \<Rightarrow> cell" where
  "year_month_of (Date (y, m, d, t)) = Str (zfill 4 (str_nat y) @ ''-'' @ zfill 2 (str_nat m))"
| "year_month_of _ = Str ''NaT''"

definition step_bucket :: "string list \<Rightarrow> row list \<Rightarrow> row list" where
  "step_bucket cols rs =
     (if ''date'' \<in> set cols
      then map (\<lambda>r. r(''year_month'' := year_month_of (r ''date''))) rs
      else rs)"

definition clean :: "pandas \<Rightarrow> dataframe \<Rightarrow> dataframe \<times> report" where
  "clean L df =
     (let cols = columns df;
          rs1 = step_duplicates cols (rows df);
          dated = (if ''date'' \<in> set cols then set_dates L rs1 else rs1);
          rs2 = step_dates L cols rs1;
          rs3 = step_numeric L cols rs2;
          rs4 = step_required cols rs3;
          rs5 = step_fill cols rs4;
          rs6 = step_text L cols rs5;
          rs7 = step_bucket cols rs6;
          cols7 = (if ''date'' \<in> set cols \<and> ''year_month'' \<notin> set cols
                   then cols @ [''year_month''] else cols)
      in (\<lparr>columns = cols7, rows = rs7\<rparr>,
          \<lparr>original_rows = length (rows df),
           duplicates_removed = length (rows df) - length rs1,
           null_rows_dropped = (length dated - length rs2) + (length rs3 - length rs4),
           invalid_dates =
             (if ''date'' \<in> set cols
              then snd (convert_dates L (map (\<lambda>r. r ''date'') rs1)) else 0),
           invalid_revenue =
             (if ''revenue'' \<in> set cols
              then length (filter (\<lambda>r. r ''revenue'' = Null) rs3) else 0),
           negative_revenue =
             (if ''revenue'' \<in> set cols
              then length (filter (\<lambda>r. case r ''revenue'' of Num x \<Rightarrow> x < 0 | _ \<Rightarrow> False) rs3)
              else 0),
           text_normalized = length (filter (\<lambda>c. c \<in> set cols) TEXT_COLUMNS),
           final_rows = length rs7\<rparr>))"

section \<open>kpi_engine.py\<close>

text \<open>
  A KPI is \<^verbatim>\<open>None\<close>, an integer, a float or a cell taken from the monthly summary (the
  label of the latest month). The KPI dictionary is an association list in insertion order.
\<close>

datatype kval = KNone | KInt int | KFloat rat | KCell cell

definition empty_kpis :: "(string \<times> kval) list" where
  "empty_kpis =
     [(''total_revenue'', KInt 0),
      (''total_orders'', KInt 0),
      (''unique_customers'', KInt 0),
      (''avg_order_value'', KInt 0),
      (''revenue_per_customer'', KInt 0),
      (''latest_month'', KCell (Str ''N/A'')),
      (''latest_month_revenue'', KInt 0),
      (''mom_revenue_growth'', KNone),
      (''total_cost'', KNone),
      (''gross_margin'', KNone),
      (''total_marketing_spend'', KNone),
      (''roas'', KNone),
      (''total_months'', KInt 0),
      (''orders_per_customer'', KInt 0)]"

fun is_num :: "cell \<Rightarrow> bool" where
  "is_num (Num x) = True"
| "is_num _ = False"

text \<open>
  \<^verbatim>\<open>clean_df["revenue"]\<close> and \<^verbatim>\<open>monthly_df.iloc[-1]["year_month"]\<close> raise KeyError
  when the column is not there. The \<open>total_revenue\<close> cells read from the monthly summary
  are numbers (a group sum is never NaN); a summary with another cell there is outside the
  model, as is a summed column that is not float64, and both are answered with
  \<open>NonNumeric\<close>.
\<close>

definition compute_kpis :: "dataframe \<Rightarrow> dataframe \<Rightarrow> error + (string \<times> kval) list" where
  "compute_kpis clean_df monthly_df =
     (if df_empty clean_df \<or> df_empty monthly_df then Inr empty_kpis
      else
        let ccols = set (columns clean_df);
            mcols = set (columns monthly_df);
            crows = rows clean_df;
            mrows = rows monthly_df;
            n = length mrows;
            curr_rev = (mrows ! (n - 1)) ''total_revenue'';
            prev_rev = (mrows ! (n - 2)) ''total_revenue''
        in if ''revenue'' \<notin> ccols then Inl KeyError
           else if \<not> float_col ''revenue'' crows then Inl NonNumeric
           else if 1 \<le> n \<and> ''year_month'' \<notin> mcols then Inl KeyError
           else if 1 \<le> n \<and> ''total_revenue'' \<notin> mcols then Inl KeyError
           else if 1 \<le> n \<and> \<not> is_num curr_rev then Inl NonNumeric
           else if 2 \<le> n \<and> \<not> is_num prev_rev then Inl NonNumeric
           else if ''cost'' \<in> ccols \<and> \<not> float_col ''cost'' crows then Inl NonNumeric
           else if ''marketing_spend'' \<in> ccols \<and> \<not> float_col ''marketing_spend'' crows
           then Inl NonNumeric
           else
             let total_revenue = round2 (agg_sum ''revenue'' crows);
                 total_orders = (if ''order_id'' \<in> ccols
                                 then int (agg_nunique ''order_id'' crows)
                                 else int (length crows));
                 unique_customers = (if ''customer_id'' \<in> ccols
                                     then int (agg_nunique ''customer_id'' crows)
                                     else 0);
                 total_cost = agg_sum ''cost'' crows;
                 total_marketing_spend = round2 (agg_sum ''marketing_spend'' crows)
             in Inr
               [(''total_revenue'', KFloat total_revenue),
                (''total_orders'', KInt total_orders),
                (''unique_customers'', KInt unique_customers),
                (''avg_order_value'',
                   KFloat (round2 (safe_divide (Some total_revenue)
                                     (Some (of_int total_orders)) 0))),
                (''revenue_per_customer'',
                   KFloat (round2 (safe_divide (Some total_revenue)
                                     (Some (of_int unique_customers)) 0))),
                (''latest_month'',
                   if 1 \<le> n then KCell ((mrows ! (n - 1)) ''year_month'')
                   else KCell (Str ''N/A'')),
                (''latest_month_revenue'',
                   if 1 \<le> n then KFloat (round2 (cell_num curr_rev)) else KInt 0),
                (''mom_revenue_growth'',
                   if 2 \<le> n
                   then KFloat (round2 (safe_pct_change (Some (cell_num curr_rev))
                                          (Some (cell_num prev_rev)) 0))
                   else KNone),
                (''total_cost'',
                   if ''cost'' \<in> ccols then KFloat (round2 total_cost) else KNone),
                (''gross_margin'',
                   if ''cost'' \<in> ccols
                   then KFloat (round2 (safe_divide (Some (total_revenue - total_cost))
                                          (Some total_revenue) 0 * 100))
                   else KNone),
                (''total_marketing_spend'',
                   if ''marketing_spend'' \<in> ccols then KFloat total_marketing_spend
                   else KNone),
                (''roas'',
                   if ''marketing_spend'' \<in> ccols
                   then KFloat (round2 (safe_divide (Some total_revenue)
                                          (Some total_marketing_spend) 0))
                   else KNone),
                (''total_months'', KInt (int n)),
                (''orders_per_customer'',
                   KFloat (round2 (safe_divide (Some (of_int total_orders))
                                     (Some (of_int unique_customers)) 0)))])"

section \<open>Reading results, and small tables\<close>

definition col_total :: "string \<Rightarrow> dataframe \<Rightarrow> rat" where
  "col_total c df = sum_list (map (\<lambda>r. cell_num (r c)) (rows df))"

definition col_values :: "string \<Rightarrow> dataframe \<Rightarrow> cell list" where
  "col_values c df = map (\<lambda>r. r c) (rows df)"

definition mk_row :: "(string \<times> cell) list \<Rightarrow> row" where
  "mk_row al = (\<lambda>c. case map_of al c of Some v \<Rightarrow> v | None \<Rightarrow> Null)"

text \<open>
  The properties of a cleaned table that the aggregations rely on: the grouping bucket and
  the identifier columns are there, every row has its bucket, and the summed columns are
  float64.
\<close>

definition clean_table :: "dataframe \<Rightarrow> bool" where
  "clean_table df =
     (list_all (\<lambda>c. c \<in> set (columns df))
        [''year_month'', ''revenue'', ''order_id'', ''customer_id'']
      \<and> list_all (\<lambda>r. r ''year_month'' \<noteq> Null) (rows df)
      \<and> list_all (\<lambda>c. c \<in> set (columns df) \<longrightarrow> float_col c (rows df))
            [''revenue'', ''cost'', ''marketing_spend''])"

text \<open>Three orders in two months, one of them without revenue.\<close>

definition orders3 :: dataframe where
  "orders3 =
     \<lparr>columns = [''order_id'', ''customer_id'', ''revenue'', ''year_month''],
      rows =
        [mk_row [(''order_id'', Str ''A1''), (''customer_id'', Str ''C1''),
                 (''revenue'', Num 100), (''year_month'', Str ''2024-01'')],
         mk_row [(''order_id'', Str ''A2''), (''customer_id'', Str ''C2''),
                 (''revenue'', Null), (''year_month'', Str ''2024-01'')],
         mk_row [(''order_id'', Str ''A3''), (''customer_id'', Str ''C1''),
                 (''revenue'', Num 50), (''year_month'', Str ''2024-02'')]]\<rparr>"

text \<open>A table with a bucket column and no revenue column.\<close>

definition no_revenue :: dataframe where
  "no_revenue =
     \<lparr>columns = [''order_id'', ''customer_id'', ''year_month''],
      rows = [mk_row [(''order_id'', Str ''A1''), (''customer_id'', Str ''C1''),
                      (''year_month'', Str ''2024-01'')]]\<rparr>"

text \<open>A table with columns and no rows.\<close>

definition no_rows :: dataframe where
  "no_rows = \<lparr>columns = [''date'', ''order_id'', ''customer_id'', ''revenue'',
                          ''channel'', ''year_month''],
              rows = []\<rparr>"

text \<open>What a result holds: the rows of a summary, one KPI of a KPI dictionary.\<close>

definition result_rows :: "error + dataframe \<Rightarrow> row list" where
  "result_rows res = (case res of Inl e \<Rightarrow> [] | Inr df \<Rightarrow> rows df)"

definition kpi :: "string \<Rightarrow> error + (string \<times> kval) list \<Rightarrow> kval option" where
  "kpi name res = (case res of Inl e \<Rightarrow> None | Inr kpis \<Rightarrow> map_of kpis name)"

text \<open>
  The inputs that \<open>compute_kpis\<close> is written for: the cleaned table has a float64
  \<open>revenue\<close> column (and float64 \<open>cost\<close> and \<open>marketing_spend\<close> columns if it has
  them), the monthly summary has its \<open>year_month\<close> column and numbers in its
  \<open>total_revenue\<close> column.
\<close>

definition kpi_inputs_ok :: "dataframe \<Rightarrow> dataframe \<Rightarrow> bool" where
  "kpi_inputs_ok clean_df monthly_df =
     (''revenue'' \<in> set (columns clean_df)
      \<and> list_all (\<lambda>c. c \<in> set (columns clean_df) \<longrightarrow> float_col c (rows clean_df))
            [''revenue'', ''cost'', ''marketing_spend'']
      \<and> ''year_month'' \<in> set (columns monthly_df)
      \<and> ''total_revenue'' \<in> set (columns monthly_df)
      \<and> list_all (\<lambda>r. is_num (r ''total_revenue'')) (rows monthly_df))"

text \<open>
  The growth that \<open>compute_kpis\<close> derives from the last two rows of a monthly summary.
\<close>

definition mom_of :: "dataframe \<Rightarrow> kval" where
  "mom_of monthly_df =
     (let n = length (rows monthly_df)
      in if 2 \<le> n
         then KFloat (round2 (safe_pct_change
                (Some (cell_num ((rows monthly_df ! (n - 1)) ''total_revenue'')))
                (Some (cell_num ((rows monthly_df ! (n - 2)) ''total_revenue''))) 0))
         else KNone)"

text \<open>Two orders in two consecutive months, and the monthly summary with their totals.\<close>

definition two_orders :: "rat \<Rightarrow> rat \<Rightarrow> dataframe" where
  "two_orders a b =
     \<lparr>columns = [''order_id'', ''customer_id'', ''revenue'', ''year_month''],
      rows =
        [mk_row [(''order_id'', Str ''A1''), (''customer_id'', Str ''C1''),
                 (''revenue'', Num a), (''year_month'', Str ''2024-01'')],
         mk_row [(''order_id'', Str ''A2''), (''customer_id'', Str ''C2''),
                 (''revenue'', Num b), (''year_month'', Str ''2024-02'')]]\<rparr>"

definition two_months :: "rat \<Rightarrow> rat \<Rightarrow> dataframe" where
  "two_months a b =
     \<lparr>columns = [''year_month'', ''total_revenue'', ''total_orders'', ''unique_customers'',
                 ''avg_order_value''],
      rows =
        [mk_row [(''year_month'', Str ''2024-01''), (''total_revenue'', Num a),
                 (''total_orders'', Num 1), (''unique_customers'', Num 1),
                 (''avg_order_value'', Num (round2 a))],
         mk_row [(''year_month'', Str ''2024-02''), (''total_revenue'', Num b),
                 (''total_orders'', Num 1), (''unique_customers'', Num 1),
                 (''avg_order_value'', Num (round2 b))]]\<rparr>"

definition one_month :: "rat \<Rightarrow> dataframe" where
  "one_month a =
     \<lparr>columns = [''year_month'', ''total_revenue'', ''total_orders'', ''unique_customers'',
                 ''avg_order_value''],
      rows =
        [mk_row [(''year_month'', Str ''2024-01''), (''total_revenue'', Num a),
                 (''total_orders'', Num 2), (''unique_customers'', Num 2),
                 (''avg_order_value'', Num (round2 (a / 2)))]]\<rparr>"

text \<open>
  For the mapping loop: the canonical fields in the order of the scan, the aliases of a
  field as the loop compares them, and the state of a mapping whose every binding is of
  a canonical field to one of its own aliases among the columns.
\<close>

definition all_standard :: "string list" where
  "all_standard = REQUIRED_COLUMNS @ OPTIONAL_COLUMNS"

definition norm_aliases :: "string \<Rightarrow> string list" where
  "norm_aliases s = map normalize_col_name (aliases_of s)"

definition bound_ok :: "string list \<Rightarrow> (string \<times> string) list \<Rightarrow> bool" where
  "bound_ok cols m =
     (distinct (map fst m)
      \<and> list_all (\<lambda>(s, a). s \<in> set all_standard \<and> a \<in> set (norm_aliases s) \<and> a \<in> set cols) m)"

definition messy_header :: "string list" where
  "messy_header = ['' Order Date'', ''Sales'', ''Revenue'', ''ID'', ''Customer ID'', ''Sales'']"

text \<open>
  The passes of \<open>clean\<close> after the date pass, row by row: \<open>update_row\<close> is what an
  \<open>update_columns\<close> loop does to one row, \<open>finish_row\<close> what steps 3, 5, 6 and 7 do
  to a row, \<open>required_kept\<close> the test of step 4, and \<open>touched\<close> the columns that some
  pass may rewrite.
\<close>

definition update_row :: "(cell \<Rightarrow> cell) \<Rightarrow> string list \<Rightarrow> string list \<Rightarrow> row \<Rightarrow> row" where
  "update_row f names cols r =
     fold (\<lambda>col r. if col \<in> set cols then r(col := f (r col)) else r) names r"

definition numeric_row :: "pandas \<Rightarrow> string list \<Rightarrow> row \<Rightarrow> row" where
  "numeric_row L cols =
     update_row (clean_numeric L) [''revenue'', ''cost'', ''marketing_spend''] cols"

definition bucket_row :: "string list \<Rightarrow> row \<Rightarrow> row" where
  "bucket_row cols r =
     (if ''date'' \<in> set cols then r(''year_month'' := year_month_of (r ''date'')) else r)"

definition finish_row :: "pandas \<Rightarrow> string list \<Rightarrow> row \<Rightarrow> row" where
  "finish_row L cols r =
     bucket_row cols
       (update_row (text_norm L) TEXT_COLUMNS cols
          (update_row fillna0 [''cost'', ''marketing_spend''] cols (numeric_row L cols r)))"

definition required_kept :: "pandas \<Rightarrow> string list \<Rightarrow> row \<Rightarrow> bool" where
  "required_kept L cols r =
     (let required_present = filter (\<lambda>c. c \<in> set cols) REQUIRED_COLUMNS
      in required_present = []
         \<or> \<not> list_all (\<lambda>c. numeric_row L cols r c = Null) required_present)"

definition touched :: "string set" where
  "touched = set ([''date'', ''revenue'', ''cost'', ''marketing_spend'']
                  @ TEXT_COLUMNS @ [''year_month''])"

subsection \<open>A stand-in for the library\<close>

text \<open>
  A small instance of the library functions, to run the cleaner on the tables below. It
  is exact on what those tables hold: timestamps, missing values, dates written as two
  digits, two digits and four digits with hyphens, and numbers written in digits. As
  \<^verbatim>\<open>pd.to_datetime\<close> does, the general parser takes the format of the column from its
  first text (month first when that text reads so, day first otherwise) and applies it
  to every text.
\<close>

definition digit_of :: "char \<Rightarrow> nat option" where
  "digit_of c = map_of (zip ''0123456789'' [0, 1, 2, 3, 4, 5, 6, 7, 8, 9]) c"

fun digits_value :: "nat \<Rightarrow> string \<Rightarrow> nat option" where
  "digits_value acc [] = Some acc"
| "digits_value acc (c # cs) =
     (case digit_of c of None \<Rightarrow> None | Some d \<Rightarrow> digits_value (10 * acc + d) cs)"

definition valid_date :: "nat \<Rightarrow> nat \<Rightarrow> nat \<Rightarrow> date option" where
  "valid_date y m d =
     (if 1 \<le> m \<and> m \<le> 12 \<and> 1 \<le> d \<and> d \<le> 31 then Some (y, m, d, 0) else None)"

fun parse_dmy :: "string \<Rightarrow> date option" where
  "parse_dmy [d1, d2, s1, m1, m2, s2, y1, y2, y3, y4] =
     (if s1 = CHR ''-'' \<and> s2 = CHR ''-''
      then (case (digits_value 0 [d1, d2], digits_value 0 [m1, m2],
                  digits_value 0 [y1, y2, y3, y4]) of
              (Some d, Some m, Some y) \<Rightarrow> valid_date y m d
            | _ \<Rightarrow> None)
      else None)"
| "parse_dmy _ = None"

fun parse_mdy :: "string \<Rightarrow> date option" where
  "parse_mdy [m1, m2, s1, d1, d2, s2, y1, y2, y3, y4] =
     (if s1 = CHR ''-'' \<and> s2 = CHR ''-''
      then (case (digits_value 0 [d1, d2], digits_value 0 [m1, m2],
                  digits_value 0 [y1, y2, y3, y4]) of
              (Some d, Some m, Some y) \<Rightarrow> valid_date y m d
            | _ \<Rightarrow> None)
      else None)"
| "parse_mdy _ = None"

definition parse_cell :: "(string \<Rightarrow> date option) \<Rightarrow> cell \<Rightarrow> date option" where
  "parse_cell p v = (case v of Date d \<Rightarrow> Some d | Str t \<Rightarrow> p t | _ \<Rightarrow> None)"

definition month_first :: "cell list \<Rightarrow> bool" where
  "month_first s =
     (case filter (\<lambda>v. case v of Str t \<Rightarrow> True | _ \<Rightarrow> False) s of
        Str t # _ \<Rightarrow> parse_mdy t \<noteq> None
      | _ \<Rightarrow> True)"

definition lib0 :: pandas where
  "lib0 =
     \<lparr>to_datetime =
        (\<lambda>s. map (parse_cell (if month_first s then parse_mdy else parse_dmy)) s),
      to_datetime_format =
        (\<lambda>fmt s. Some (map (parse_cell (if fmt = ''%d-%m-%Y'' then parse_dmy
                                          else if fmt = ''%m-%d-%Y'' then parse_mdy
                                          else (\<lambda>t. None))) s)),
      to_numeric =
        (\<lambda>t. if t = [] then None else map_option of_nat (digits_value 0 t)),
      str_num = (\<lambda>x. str_nat (nat \<lfloor>x\<rfloor>)),
      str_date =
        (\<lambda>(y, m, d, t). zfill 4 (str_nat y) @ ''-'' @ zfill 2 (str_nat m)
                           @ ''-'' @ zfill 2 (str_nat d)),
      delete_class = (\<lambda>syms t. filter (\<lambda>ch. \<not> is_space ch \<and> ch \<notin> set (concat syms)) t)\<rparr>"

subsection \<open>Tables for the cleaner\<close>

text \<open>
  Two rows with the same \<open>order_id\<close>; the first has no date, the second is complete.
\<close>

definition undated_first :: dataframe where
  "undated_first =
     \<lparr>columns = [''date'', ''order_id'', ''customer_id'', ''revenue''],
      rows =
        [mk_row [(''date'', Null), (''order_id'', Str ''X''),
                 (''customer_id'', Str ''C1''), (''revenue'', Str ''10'')],
         mk_row [(''date'', Date (2024, 1, 5, 0)), (''order_id'', Str ''X''),
                 (''customer_id'', Str ''C1''), (''revenue'', Str ''20'')]]\<rparr>"

text \<open>
  Three dated rows, the first two with the same \<open>order_id\<close> and different revenue,
  and a column \<open>note\<close> that no pass touches.
\<close>

definition repeated_order :: dataframe where
  "repeated_order =
     \<lparr>columns = [''date'', ''order_id'', ''customer_id'', ''revenue'', ''note''],
      rows =
        [mk_row [(''date'', Date (2024, 1, 5, 0)), (''order_id'', Str ''X''),
                 (''customer_id'', Str ''C1''), (''revenue'', Str ''10''),
                 (''note'', Str ''first'')],
         mk_row [(''date'', Date (2024, 1, 6, 0)), (''order_id'', Str ''X''),
                 (''customer_id'', Str ''C1''), (''revenue'', Str ''20''),
                 (''note'', Str ''second'')],
         mk_row [(''date'', Date (2024, 2, 1, 0)), (''order_id'', Str ''Y''),
                 (''customer_id'', Str ''C2''), (''revenue'', Str ''30''),
                 (''note'', Str ''third'')]]\<rparr>"



text \<open>
  Dates written day first. The first reads month first as well (2 January), so the
  general parser takes the column as month first and fails on the other two.
\<close>

definition day_first_dates :: dataframe where
  "day_first_dates =
     \<lparr>columns = [''date'', ''order_id'', ''customer_id'', ''revenue''],
      rows =
        [mk_row [(''date'', Str ''01-02-2024''), (''order_id'', Str ''A1''),
                 (''customer_id'', Str ''C1''), (''revenue'', Str ''10'')],
         mk_row [(''date'', Str ''13-02-2024''), (''order_id'', Str ''A2''),
                 (''customer_id'', Str ''C2''), (''revenue'', Str ''20'')],
         mk_row [(''date'', Str ''14-02-2024''), (''order_id'', Str ''A3''),
                 (''customer_id'', Str ''C1''), (''revenue'', Str ''30'')]]\<rparr>"

subsection \<open>Tables for the segment summary\<close>


definition tied_segments :: dataframe where
  "tied_segments =
     \<lparr>columns = [''order_id'', ''customer_id'', ''revenue'', ''channel''],
      rows =
        [mk_row [(''order_id'', Str ''A1''), (''customer_id'', Str ''C1''),
                 (''revenue'', Num 100), (''channel'', Str ''a'')],
         mk_row [(''order_id'', Str ''A2''), (''customer_id'', Str ''C2''),
                 (''revenue'', Num 100), (''channel'', Str ''b'')]]\<rparr>"


section \<open>Lemmas on grouping\<close>

lemma sum_absent_key:
  "k \<notin> set ks \<Longrightarrow> (\<Sum>k'\<leftarrow>ks. if k = k' then v else 0) = (0::rat)"
  by (induction ks) auto

lemma sum_single_key:
  assumes "distinct ks" "k \<in> set ks"
  shows "(\<Sum>k'\<leftarrow>ks. if k = k' then v else 0) = (v::rat)"
  using assms by (induction ks) (auto simp: sum_absent_key)

lemma group_sum_partition:
  fixes f :: "row \<Rightarrow> rat"
  assumes "distinct ks" "\<forall>r\<in>set rs. key r \<in> set ks"
  shows "(\<Sum>k\<leftarrow>ks. \<Sum>r\<leftarrow>filter (\<lambda>r. key r = k) rs. f r) = (\<Sum>r\<leftarrow>rs. f r)"
  using assms(2)
proof (induction rs)
  case Nil
  then show ?case by simp
next
  case (Cons r rs)
  have "(\<Sum>k\<leftarrow>ks. \<Sum>r'\<leftarrow>filter (\<lambda>r'. key r' = k) (r # rs). f r')
        = (\<Sum>k\<leftarrow>ks. (if key r = k then f r else 0)
                    + (\<Sum>r'\<leftarrow>filter (\<lambda>r'. key r' = k) rs. f r'))"
    by (rule arg_cong[where f=sum_list]) (auto intro!: map_cong)
  also have "\<dots> = (\<Sum>k\<leftarrow>ks. if key r = k then f r else 0)
                  + (\<Sum>k\<leftarrow>ks. \<Sum>r'\<leftarrow>filter (\<lambda>r'. key r' = k) rs. f r')"
    by (simp add: sum_list_addf)
  also have "(\<Sum>k\<leftarrow>ks. if key r = k then f r else 0) = f r"
    using Cons.prems assms(1) by (intro sum_single_key) auto
  finally show ?case using Cons by simp
qed

lemma set_group_keys: "set (group_keys c rs) = {v. v \<noteq> Null \<and> v \<in> (\<lambda>r. r c) ` set rs}"
  by (auto simp: group_keys_def)

lemma distinct_group_keys: "distinct (group_keys c rs)"
  by (simp add: group_keys_def)

lemma monthly_total:
  "cell_num (monthly_row hc hs k g ''total_revenue'') = agg_sum ''revenue'' g"
  by (simp add: monthly_row_def Let_def)

lemma clean_table_orders3: "clean_table orders3"
  by (simp add: clean_table_def orders3_def mk_row_def float_col_def)

section \<open>Conservation of totals (C1)\<close>

text \<open>
  C1. For every non-empty cleaned table (each row carries its \<open>year_month\<close> bucket),
  \<open>build_monthly_summary\<close> returns a summary, and the sum of its \<open>total_revenue\<close> column
  equals the sum of the revenue column of the table; a missing revenue adds nothing on
  either side. The sums are exact, which is what the floating-point sums of the program
  agree with up to rounding.
\<close>

theorem monthly_conservation:
  assumes "clean_table df" and "rows df \<noteq> []"
  shows "\<exists>m. build_monthly_summary df = Inr m
           \<and> col_total ''total_revenue'' m = col_total ''revenue'' df"
proof -
  let ?ks = "group_keys ''year_month'' (rows df)"
  let ?hc = "''cost'' \<in> set (columns df)"
  let ?hs = "''marketing_spend'' \<in> set (columns df)"
  from assms(1) have cols: "''year_month'' \<in> set (columns df)" "''revenue'' \<in> set (columns df)"
    "''order_id'' \<in> set (columns df)" "''customer_id'' \<in> set (columns df)"
    and keys: "\<forall>r\<in>set (rows df). r ''year_month'' \<noteq> Null"
    and fl: "float_col ''revenue'' (rows df)"
       "?hc \<Longrightarrow> float_col ''cost'' (rows df)"
       "?hs \<Longrightarrow> float_col ''marketing_spend'' (rows df)"
    by (simp_all add: clean_table_def list_all_iff)
  from cols(1) assms(2) have ne: "\<not> df_empty df"
    by (auto simp: df_empty_def)
  have cover: "\<forall>r\<in>set (rows df). r ''year_month'' \<in> set ?ks"
    using keys by (auto simp: set_group_keys)
  define m where
    "m = \<lparr>columns = [''year_month'', ''total_revenue'', ''total_orders'', ''unique_customers'']
                     @ (if ?hc then [''total_cost''] else [])
                     @ (if ?hs then [''total_marketing_spend''] else [])
                     @ [''avg_order_value''],
          rows = map (\<lambda>k. monthly_row ?hc ?hs k (group_of ''year_month'' (rows df) k)) ?ks\<rparr>"
  have res: "build_monthly_summary df = Inr m"
    using cols ne fl by (simp add: build_monthly_summary_def Let_def m_def)
  have "col_total ''total_revenue'' m
        = (\<Sum>k\<leftarrow>?ks. \<Sum>r\<leftarrow>filter (\<lambda>r. r ''year_month'' = k) (rows df). cell_num (r ''revenue''))"
    by (simp add: col_total_def m_def comp_def monthly_total agg_sum_def group_of_def)
  also have "\<dots> = col_total ''revenue'' df"
    unfolding col_total_def using distinct_group_keys cover by (rule group_sum_partition)
  finally show ?thesis using res by blast
qed

theorem monthly_conservation_witness:
  "clean_table orders3 \<and> rows orders3 \<noteq> []
   \<and> (\<exists>m. build_monthly_summary orders3 = Inr m
          \<and> col_total ''total_revenue'' m = col_total ''revenue'' orders3)
   \<and> col_total ''revenue'' orders3 = 150"
proof -
  have ne: "rows orders3 \<noteq> []" by (simp add: orders3_def)
  have "col_total ''revenue'' orders3 = 150"
    by (simp add: col_total_def orders3_def mk_row_def)
  with monthly_conservation [OF clean_table_orders3 ne] clean_table_orders3 ne
  show ?thesis by simp
qed

section \<open>The guards of the aggregations (C2)\<close>

text \<open>
  C2 as stated fails: the three aggregations guard their grouping column only. A table
  that is not empty and has a \<open>year_month\<close> column but no \<open>revenue\<close> column makes
  \<open>build_monthly_summary\<close> raise KeyError in \<^verbatim>\<open>.agg\<close>; it does not return an empty
  result.
\<close>

theorem missing_revenue_counterexample:
  "''year_month'' \<in> set (columns no_revenue) \<and> ''revenue'' \<notin> set (columns no_revenue)
   \<and> build_monthly_summary no_revenue = Inl KeyError
   \<and> build_monthly_summary no_revenue \<noteq> Inr empty_df"
  by (simp add: build_monthly_summary_def no_revenue_def df_empty_def)

text \<open>
  C2, amended. Each of the three aggregations returns the empty result, without raising,
  when the table is empty or the grouping column (\<open>year_month\<close>, the segment column,
  \<open>date\<close>) is absent. On a table that is not empty and has the grouping column, a missing
  aggregated column (\<open>revenue\<close>, \<open>order_id\<close>, \<open>customer_id\<close>; for the daily summary
  \<open>revenue\<close>, \<open>order_id\<close>) raises KeyError.
\<close>

theorem aggregation_guards:
  "(''year_month'' \<notin> set (columns df) \<or> df_empty df
      \<longrightarrow> build_monthly_summary df = Inr empty_df)
   \<and> (segment_col \<notin> set (columns df) \<or> df_empty df
      \<longrightarrow> build_segment_summary srt df segment_col = Inr empty_df)
   \<and> (''date'' \<notin> set (columns df) \<or> df_empty df
      \<longrightarrow> build_daily_summary df = Inr empty_df)
   \<and> (''year_month'' \<in> set (columns df) \<and> \<not> df_empty df
       \<and> \<not> set [''revenue'', ''order_id'', ''customer_id''] \<subseteq> set (columns df)
      \<longrightarrow> build_monthly_summary df = Inl KeyError)
   \<and> (segment_col \<in> set (columns df) \<and> \<not> df_empty df
       \<and> \<not> set [''revenue'', ''order_id'', ''customer_id''] \<subseteq> set (columns df)
      \<longrightarrow> build_segment_summary srt df segment_col = Inl KeyError)
   \<and> (''date'' \<in> set (columns df) \<and> \<not> df_empty df
       \<and> \<not> set [''revenue'', ''order_id''] \<subseteq> set (columns df)
      \<longrightarrow> build_daily_summary df = Inl KeyError)"
proof -
  have m: "''year_month'' \<notin> set (columns df) \<or> df_empty df
             \<Longrightarrow> build_monthly_summary df = Inr empty_df"
    by (simp add: build_monthly_summary_def)
  have s: "segment_col \<notin> set (columns df) \<or> df_empty df
             \<Longrightarrow> build_segment_summary srt df segment_col = Inr empty_df"
    by (simp add: build_segment_summary_def)
  have d: "''date'' \<notin> set (columns df) \<or> df_empty df
             \<Longrightarrow> build_daily_summary df = Inr empty_df"
    by (simp add: build_daily_summary_def)
  have mk: "''year_month'' \<in> set (columns df) \<and> \<not> df_empty df
       \<and> \<not> set [''revenue'', ''order_id'', ''customer_id''] \<subseteq> set (columns df)
      \<Longrightarrow> build_monthly_summary df = Inl KeyError"
    by (auto simp: build_monthly_summary_def Let_def)
  have sk: "segment_col \<in> set (columns df) \<and> \<not> df_empty df
       \<and> \<not> set [''revenue'', ''order_id'', ''customer_id''] \<subseteq> set (columns df)
      \<Longrightarrow> build_segment_summary srt df segment_col = Inl KeyError"
    by (auto simp: build_segment_summary_def Let_def)
  have dk: "''date'' \<in> set (columns df) \<and> \<not> df_empty df
       \<and> \<not> set [''revenue'', ''order_id''] \<subseteq> set (columns df)
      \<Longrightarrow> build_daily_summary df = Inl KeyError"
    by (auto simp: build_daily_summary_def Let_def)
  from m s d mk sk dk show ?thesis by blast
qed

theorem aggregation_guards_witness:
  "df_empty no_rows
   \<and> build_monthly_summary no_rows = Inr empty_df
   \<and> build_segment_summary (npy_aquicksort insertion_sort) no_rows ''channel'' = Inr empty_df
   \<and> build_daily_summary no_rows = Inr empty_df
   \<and> ''date'' \<notin> set (columns no_revenue)
   \<and> build_daily_summary no_revenue = Inr empty_df
   \<and> ''order_id'' \<in> set (columns no_revenue) \<and> \<not> df_empty no_revenue
   \<and> build_segment_summary (npy_aquicksort insertion_sort) no_revenue ''order_id'' = Inl KeyError"
proof -
  have e: "df_empty no_rows" by (simp add: df_empty_def no_rows_def)
  have c: "''date'' \<notin> set (columns no_revenue)" "''order_id'' \<in> set (columns no_revenue)"
    "\<not> df_empty no_revenue"
    "\<not> set [''revenue'', ''order_id'', ''customer_id''] \<subseteq> set (columns no_revenue)"
    by (simp_all add: no_revenue_def df_empty_def)
  from aggregation_guards [of no_rows "''channel''" "npy_aquicksort insertion_sort"]
       aggregation_guards [of no_revenue "''order_id''" "npy_aquicksort insertion_sort"] e c
  show ?thesis by simp
qed

section \<open>No double binding in the column mapping (C3)\<close>

lemma find_alias_Some:
  "find_alias cols rm als = Some a \<Longrightarrow>
     a \<in> set (map normalize_col_name als) \<and> a \<in> set cols \<and> a \<notin> set (map fst rm)"
  by (induction als) (auto simp: Let_def split: if_splits)

lemma set_update_subset: "set (AList.update k v al) \<subseteq> insert (k, v) (set al)"
  by (induction al) auto

lemma bound_ok_update:
  assumes "bound_ok cols m" "s \<in> set all_standard" "a \<in> set (norm_aliases s)" "a \<in> set cols"
  shows "bound_ok cols (AList.update s a m)"
  using assms set_update_subset [of s a m]
  unfolding bound_ok_def list_all_iff by (auto simp: distinct_update)

lemma build_mapping_bound_ok:
  assumes "build_mapping cols ss (m, rm) = (m', rm')" "bound_ok cols m"
    and "set ss \<subseteq> set all_standard"
  shows "bound_ok cols m'"
  using assms
proof (induction ss arbitrary: m rm)
  case Nil
  then show ?case by simp
next
  case (Cons s ss)
  show ?case
  proof (cases "find_alias cols rm (aliases_of s)")
    case None
    with Cons show ?thesis by simp
  next
    case (Some a)
    from find_alias_Some [OF Some] have a: "a \<in> set (norm_aliases s)" "a \<in> set cols"
      by (simp_all add: norm_aliases_def)
    from Cons.prems(3) have s: "s \<in> set all_standard" "set ss \<subseteq> set all_standard"
      by auto
    from bound_ok_update [OF Cons.prems(2) s(1) a]
    have ok: "bound_ok cols (AList.update s a m)" .
    from Cons.prems(1) Some
    have "build_mapping cols ss (AList.update s a m,
            if a \<noteq> s then AList.update a s rm else rm) = (m', rm')"
      by simp
    from Cons.IH [OF this ok s(2)] show ?thesis .
  qed
qed

text \<open>No alias, normalised, stands in the list of two canonical fields.\<close>

lemma aliases_all_distinct: "distinct (concat (map norm_aliases all_standard))"
  by code_simp

lemma distinct_concat_owner:
  "distinct (concat (map f xs)) \<Longrightarrow> x \<in> set xs \<Longrightarrow> y \<in> set xs
     \<Longrightarrow> a \<in> set (f x) \<Longrightarrow> a \<in> set (f y) \<Longrightarrow> x = y"
  by (induction xs) auto

lemma aliases_disjoint:
  "s \<in> set all_standard \<Longrightarrow> s' \<in> set all_standard \<Longrightarrow> a \<in> set (norm_aliases s)
     \<Longrightarrow> a \<in> set (norm_aliases s') \<Longrightarrow> s = s'"
  using aliases_all_distinct by (rule distinct_concat_owner)

lemma bound_ok_injective:
  assumes "bound_ok cols m"
  shows "distinct (map snd m)"
proof -
  from assms have d: "distinct (map fst m)"
    by (simp add: bound_ok_def)
  then have dm: "distinct m"
    by (rule distinct_map [THEN iffD1, THEN conjunct1])
  have "inj_on snd (set m)"
  proof (rule inj_onI)
    fix p q assume p: "p \<in> set m" and q: "q \<in> set m" and e: "snd p = snd q"
    from assms p q have "fst p \<in> set all_standard" "fst q \<in> set all_standard"
      "snd p \<in> set (norm_aliases (fst p))" "snd q \<in> set (norm_aliases (fst q))"
      by (auto simp: bound_ok_def list_all_iff)
    with e have "fst p = fst q"
      by (auto dest: aliases_disjoint)
    with e show "p = q"
      by (simp add: prod_eq_iff)
  qed
  with dm show ?thesis
    by (simp add: distinct_map)
qed

text \<open>
  C3. For every list of raw column names, the mapping of \<open>detect_and_map\<close> binds each
  canonical field at most once (its keys are distinct) and consumes each source column
  for at most one canonical field (its values are distinct); the keys are canonical
  fields, the values are columns of the normalised, de-duplicated header; so the number
  of source columns consumed does not exceed the number of canonical fields resolved.
\<close>

theorem no_double_binding:
  "(let mapping = fst (snd (detect_and_map raw_columns))
    in distinct (map fst mapping) \<and> distinct (map snd mapping)
       \<and> set (map fst mapping) \<subseteq> set (REQUIRED_COLUMNS @ OPTIONAL_COLUMNS)
       \<and> set (map snd mapping)
            \<subseteq> set (deduplicate_columns (map normalize_col_name raw_columns))
       \<and> card (set (map snd mapping)) \<le> card (set (map fst mapping)))"
proof -
  let ?cols = "deduplicate_columns (map normalize_col_name raw_columns)"
  obtain m rm where b: "build_mapping ?cols all_standard ([], []) = (m, rm)"
    by (cases "build_mapping ?cols all_standard ([], [])") auto
  have "bound_ok ?cols []"
    by (simp add: bound_ok_def)
  from build_mapping_bound_ok [OF b this] have ok: "bound_ok ?cols m"
    by simp
  have m: "fst (snd (detect_and_map raw_columns)) = m"
    using b by (simp add: detect_and_map_def Let_def all_standard_def)
  from ok have d1: "distinct (map fst m)"
    by (simp add: bound_ok_def)
  from bound_ok_injective [OF ok] have d2: "distinct (map snd m)" .
  from ok have s1: "set (map fst m) \<subseteq> set (REQUIRED_COLUMNS @ OPTIONAL_COLUMNS)"
    and s2: "set (map snd m) \<subseteq> set ?cols"
    by (auto simp: bound_ok_def all_standard_def list_all_iff)
  from distinct_card [OF d1] distinct_card [OF d2]
  have "card (set (map snd m)) = card (set (map fst m))"
    by simp
  with d1 d2 s1 s2 show ?thesis
    unfolding m Let_def by simp
qed

theorem no_double_binding_witness:
  "fst (snd (detect_and_map messy_header))
     = [(''date'', ''order_date''), (''order_id'', ''id''),
        (''customer_id'', ''customer_id''), (''revenue'', ''revenue'')]
   \<and> distinct (map snd (fst (snd (detect_and_map messy_header))))
   \<and> card (set (map snd (fst (snd (detect_and_map messy_header)))))
       \<le> card (set (map fst (fst (snd (detect_and_map messy_header)))))"
proof -
  have e: "fst (snd (detect_and_map messy_header))
     = [(''date'', ''order_date''), (''order_id'', ''id''),
        (''customer_id'', ''customer_id''), (''revenue'', ''revenue'')]"
    by code_simp
  from no_double_binding [of messy_header] e show ?thesis
    unfolding Let_def by blast
qed

section \<open>Month-over-month growth (C6, C10)\<close>

lemma compute_kpis_mom:
  assumes "kpi_inputs_ok clean_df monthly_df" "\<not> df_empty clean_df" "\<not> df_empty monthly_df"
  shows "\<exists>kpis. compute_kpis clean_df monthly_df = Inr kpis
           \<and> map_of kpis ''mom_revenue_growth'' = Some (mom_of monthly_df)"
proof -
  let ?n = "length (rows monthly_df)"
  from assms(3) have n: "1 \<le> ?n"
    by (cases "rows monthly_df") (auto simp: df_empty_def)
  from assms(1) have nums: "\<forall>r\<in>set (rows monthly_df). is_num (r ''total_revenue'')"
    by (simp add: kpi_inputs_ok_def list_all_iff)
  from n have "rows monthly_df ! (?n - 1) \<in> set (rows monthly_df)" by simp
  with nums have c: "is_num ((rows monthly_df ! (?n - 1)) ''total_revenue'')" by blast
  have p: "2 \<le> ?n \<Longrightarrow> is_num ((rows monthly_df ! (?n - 2)) ''total_revenue'')"
    using nums by simp
  from assms c p show ?thesis
    by (simp add: compute_kpis_def kpi_inputs_ok_def Let_def mom_of_def)
qed

lemma compute_kpis_empty_mom:
  assumes "df_empty clean_df \<or> df_empty monthly_df"
  shows "\<exists>kpis. compute_kpis clean_df monthly_df = Inr kpis
           \<and> map_of kpis ''mom_revenue_growth'' = Some KNone"
  using assms by (simp add: compute_kpis_def empty_kpis_def)

lemma round2_zero: "round2 0 = 0"
  by (simp add: round2_def rint_def)

text \<open>
  C6 as stated fails: the growth that \<open>compute_kpis\<close> stores is the percentage change
  rounded to two decimals, not the percentage change itself. Monthly revenues 3 and 4
  give 33.33, while \<open>safe_pct_change\<close> gives 100/3.
\<close>

theorem mom_growth_counterexample:
  "kpi ''mom_revenue_growth'' (compute_kpis (two_orders 3 4) (two_months 3 4))
     = Some (KFloat (3333 / 100))
   \<and> safe_pct_change (Some 4) (Some 3) 0 = 100 / 3
   \<and> kpi ''mom_revenue_growth'' (compute_kpis (two_orders 3 4) (two_months 3 4))
     \<noteq> Some (KFloat (safe_pct_change (Some 4) (Some 3) 0))"
proof -
  have a: "kpi ''mom_revenue_growth'' (compute_kpis (two_orders 3 4) (two_months 3 4))
             = Some (KFloat (3333 / 100))"
    by code_simp
  have b: "safe_pct_change (Some 4) (Some 3) 0 = 100 / 3"
    by (simp add: safe_pct_change_def)
  show ?thesis unfolding a b by simp
qed

text \<open>
  C6, amended. For a cleaned table and a monthly summary that are empty or as
  \<open>compute_kpis\<close> expects them, \<open>compute_kpis\<close> returns a dictionary whose
  \<open>mom_revenue_growth\<close> is \<open>None\<close> (not 0) when the monthly summary has fewer than two
  rows or one of the two tables is empty, and otherwise is the safe percentage change from
  the second-to-last to the last monthly \<open>total_revenue\<close>, rounded to two decimals.
\<close>

theorem mom_growth_rounded:
  assumes "df_empty clean_df \<or> df_empty monthly_df \<or> kpi_inputs_ok clean_df monthly_df"
  shows "\<exists>kpis. compute_kpis clean_df monthly_df = Inr kpis
           \<and> (length (rows monthly_df) < 2 \<or> df_empty clean_df \<or> df_empty monthly_df
                \<longrightarrow> map_of kpis ''mom_revenue_growth'' = Some KNone)
           \<and> (2 \<le> length (rows monthly_df) \<and> \<not> df_empty clean_df \<and> \<not> df_empty monthly_df
                \<longrightarrow> map_of kpis ''mom_revenue_growth'' =
                      Some (KFloat (round2 (safe_pct_change
                        (Some (cell_num ((rows monthly_df ! (length (rows monthly_df) - 1))
                                           ''total_revenue'')))
                        (Some (cell_num ((rows monthly_df ! (length (rows monthly_df) - 2))
                                           ''total_revenue'')))
                        0))))"
proof (cases "df_empty clean_df \<or> df_empty monthly_df")
  case True
  from compute_kpis_empty_mom [OF True] True show ?thesis by auto
next
  case False
  with assms have "kpi_inputs_ok clean_df monthly_df" by blast
  from compute_kpis_mom [OF this] False
  obtain kpis where k: "compute_kpis clean_df monthly_df = Inr kpis"
    "map_of kpis ''mom_revenue_growth'' = Some (mom_of monthly_df)"
    by blast
  show ?thesis
    using k False by (auto simp: mom_of_def Let_def)
qed

lemma two_months_ok: "kpi_inputs_ok (two_orders a b) (two_months a b)"
  by (simp add: kpi_inputs_ok_def two_orders_def two_months_def float_col_def mk_row_def)

lemma two_orders_not_empty: "\<not> df_empty (two_orders a b)"
  by (simp add: df_empty_def two_orders_def)

lemma two_months_not_empty: "\<not> df_empty (two_months a b)"
  by (simp add: df_empty_def two_months_def)

lemma one_month_not_empty: "\<not> df_empty (one_month a)"
  by (simp add: df_empty_def one_month_def)

lemma one_month_ok: "kpi_inputs_ok (two_orders a b) (one_month c)"
  by (simp add: kpi_inputs_ok_def two_orders_def one_month_def float_col_def mk_row_def)

theorem mom_growth_rounded_witness:
  "kpi_inputs_ok (two_orders 1000 1200) (two_months 1000 1200)
   \<and> kpi ''mom_revenue_growth'' (compute_kpis (two_orders 1000 1200) (two_months 1000 1200))
       = Some (KFloat 20)
   \<and> kpi_inputs_ok (two_orders 1000 1200) (one_month 2200)
   \<and> kpi ''mom_revenue_growth'' (compute_kpis (two_orders 1000 1200) (one_month 2200))
       = Some KNone"
proof -
  have r: "round2 (safe_pct_change (Some 1200) (Some 1000) 0) = 20"
    by code_simp
  have l: "length (rows (two_months 1000 1200)) = 2" "length (rows (one_month 2200)) = 1"
          "(rows (two_months 1000 1200) ! 1) ''total_revenue'' = Num 1200"
          "(rows (two_months 1000 1200) ! 0) ''total_revenue'' = Num 1000"
    by (simp_all add: two_months_def one_month_def mk_row_def)
  from mom_growth_rounded [of "two_orders 1000 1200" "two_months 1000 1200"]
       mom_growth_rounded [of "two_orders 1000 1200" "one_month 2200"]
       two_months_ok [of 1000 1200] one_month_ok [of 1000 1200 2200]
       two_orders_not_empty [of 1000 1200] two_months_not_empty [of 1000 1200]
       one_month_not_empty [of 2200] r l
  show ?thesis by (auto simp: kpi_def)
qed

text \<open>
  C10. When the monthly summary has at least two rows and the \<open>total_revenue\<close> of the
  second-to-last month is 0, \<open>compute_kpis\<close> returns \<open>mom_revenue_growth\<close> 0.0: not
  \<open>None\<close>, not an error. It is the value that two equal months give as well
  (\<open>mom_equal_months\<close>).
\<close>

theorem mom_zero_base:
  assumes "kpi_inputs_ok clean_df monthly_df"
    and "\<not> df_empty clean_df" and "\<not> df_empty monthly_df"
    and "2 \<le> length (rows monthly_df)"
    and "(rows monthly_df ! (length (rows monthly_df) - 2)) ''total_revenue'' = Num 0"
  shows "kpi ''mom_revenue_growth'' (compute_kpis clean_df monthly_df) = Some (KFloat 0)"
proof -
  from compute_kpis_mom [OF assms(1-3)]
  obtain kpis where k: "compute_kpis clean_df monthly_df = Inr kpis"
    "map_of kpis ''mom_revenue_growth'' = Some (mom_of monthly_df)"
    by blast
  from assms(4,5) have "mom_of monthly_df = KFloat 0"
    by (simp add: mom_of_def Let_def safe_pct_change_def round2_zero)
  with k show ?thesis by (simp add: kpi_def)
qed

theorem mom_zero_base_witness:
  "kpi_inputs_ok (two_orders 0 500) (two_months 0 500)
   \<and> 2 \<le> length (rows (two_months 0 500))
   \<and> (rows (two_months 0 500) ! (length (rows (two_months 0 500)) - 2)) ''total_revenue'' = Num 0
   \<and> kpi ''mom_revenue_growth'' (compute_kpis (two_orders 0 500) (two_months 0 500))
       = Some (KFloat 0)"
proof -
  have l: "2 \<le> length (rows (two_months 0 500))"
    by (simp add: two_months_def)
  have z: "(rows (two_months 0 500) ! (length (rows (two_months 0 500)) - 2)) ''total_revenue''
             = Num 0"
    by (simp add: two_months_def mk_row_def)
  from mom_zero_base [OF two_months_ok two_orders_not_empty two_months_not_empty l z]
       two_months_ok l z
  show ?thesis by simp
qed

lemma mom_equal_months:
  assumes "kpi_inputs_ok clean_df monthly_df"
    and "\<not> df_empty clean_df" and "\<not> df_empty monthly_df"
    and "2 \<le> length (rows monthly_df)"
    and "(rows monthly_df ! (length (rows monthly_df) - 2)) ''total_revenue''
           = (rows monthly_df ! (length (rows monthly_df) - 1)) ''total_revenue''"
  shows "kpi ''mom_revenue_growth'' (compute_kpis clean_df monthly_df) = Some (KFloat 0)"
proof -
  from compute_kpis_mom [OF assms(1-3)]
  obtain kpis where k: "compute_kpis clean_df monthly_df = Inr kpis"
    "map_of kpis ''mom_revenue_growth'' = Some (mom_of monthly_df)"
    by blast
  from assms(4,5) have "mom_of monthly_df = KFloat 0"
    by (simp add: mom_of_def Let_def safe_pct_change_def round2_zero)
  with k show ?thesis by (simp add: kpi_def)
qed

section \<open>Empty-input safety (C7)\<close>

lemma compute_kpis_keys:
  "compute_kpis clean_df monthly_df = Inr kpis \<Longrightarrow> map fst kpis = map fst empty_kpis"
  by (auto simp: compute_kpis_def Let_def empty_kpis_def split: if_splits)

text \<open>
  C7. On an empty cleaned table the three aggregations return the empty summary, and
  \<open>compute_kpis\<close>, given an empty cleaned table or an empty monthly summary, returns the
  dictionary of defaults: every key that a computed dictionary has, with 0 for the counts
  and totals, \<open>N/A\<close> for the latest month and \<open>None\<close> for the growth, cost, margin,
  spend and ROAS. Nothing raises on this path.
\<close>

theorem empty_input_safety:
  "(df_empty clean_df \<longrightarrow>
      build_monthly_summary clean_df = Inr empty_df
      \<and> build_segment_summary srt clean_df segment_col = Inr empty_df
      \<and> build_daily_summary clean_df = Inr empty_df)
   \<and> df_empty empty_df
   \<and> (df_empty clean_df \<or> df_empty monthly_df \<longrightarrow>
        compute_kpis clean_df monthly_df = Inr empty_kpis)
   \<and> (compute_kpis any_df any_monthly = Inr kpis \<longrightarrow> map fst kpis = map fst empty_kpis)
   \<and> map_of empty_kpis =
        [''total_revenue'' \<mapsto> KInt 0, ''total_orders'' \<mapsto> KInt 0,
         ''unique_customers'' \<mapsto> KInt 0, ''avg_order_value'' \<mapsto> KInt 0,
         ''revenue_per_customer'' \<mapsto> KInt 0, ''latest_month'' \<mapsto> KCell (Str ''N/A''),
         ''latest_month_revenue'' \<mapsto> KInt 0, ''mom_revenue_growth'' \<mapsto> KNone,
         ''total_cost'' \<mapsto> KNone, ''gross_margin'' \<mapsto> KNone,
         ''total_marketing_spend'' \<mapsto> KNone, ''roas'' \<mapsto> KNone,
         ''total_months'' \<mapsto> KInt 0, ''orders_per_customer'' \<mapsto> KInt 0]"
proof -
  have a: "df_empty clean_df \<Longrightarrow>
      build_monthly_summary clean_df = Inr empty_df
      \<and> build_segment_summary srt clean_df segment_col = Inr empty_df
      \<and> build_daily_summary clean_df = Inr empty_df"
    by (simp add: build_monthly_summary_def build_segment_summary_def build_daily_summary_def)
  have b: "df_empty empty_df"
    by (simp add: df_empty_def empty_df_def)
  have c: "df_empty clean_df \<or> df_empty monthly_df \<Longrightarrow>
        compute_kpis clean_df monthly_df = Inr empty_kpis"
    by (simp add: compute_kpis_def)
  have d: "map_of empty_kpis =
        [''total_revenue'' \<mapsto> KInt 0, ''total_orders'' \<mapsto> KInt 0,
         ''unique_customers'' \<mapsto> KInt 0, ''avg_order_value'' \<mapsto> KInt 0,
         ''revenue_per_customer'' \<mapsto> KInt 0, ''latest_month'' \<mapsto> KCell (Str ''N/A''),
         ''latest_month_revenue'' \<mapsto> KInt 0, ''mom_revenue_growth'' \<mapsto> KNone,
         ''total_cost'' \<mapsto> KNone, ''gross_margin'' \<mapsto> KNone,
         ''total_marketing_spend'' \<mapsto> KNone, ''roas'' \<mapsto> KNone,
         ''total_months'' \<mapsto> KInt 0, ''orders_per_customer'' \<mapsto> KInt 0]"
    by (rule ext) (simp add: empty_kpis_def)
  from a b c d compute_kpis_keys [of any_df any_monthly kpis] show ?thesis
    by blast
qed

theorem empty_input_safety_witness:
  "df_empty no_rows
   \<and> build_monthly_summary no_rows = Inr empty_df
   \<and> build_segment_summary (npy_aquicksort insertion_sort) no_rows ''region'' = Inr empty_df
   \<and> build_daily_summary no_rows = Inr empty_df
   \<and> compute_kpis no_rows empty_df = Inr empty_kpis
   \<and> compute_kpis orders3 empty_df = Inr empty_kpis
   \<and> kpi ''total_revenue'' (compute_kpis no_rows empty_df) = Some (KInt 0)
   \<and> kpi ''mom_revenue_growth'' (compute_kpis no_rows empty_df) = Some KNone
   \<and> kpi ''gross_margin'' (compute_kpis no_rows empty_df) = Some KNone
   \<and> kpi ''roas'' (compute_kpis no_rows empty_df) = Some KNone
   \<and> kpi ''total_months'' (compute_kpis no_rows empty_df) = Some (KInt 0)"
proof -
  have e: "df_empty no_rows" by (simp add: df_empty_def no_rows_def)
  have e': "df_empty empty_df" by (simp add: df_empty_def empty_df_def)
  from empty_input_safety [of no_rows "npy_aquicksort insertion_sort" "''region''" empty_df no_rows empty_df empty_kpis]
       empty_input_safety [of orders3 "npy_aquicksort insertion_sort" "''region''" empty_df no_rows empty_df empty_kpis]
       e e'
  show ?thesis by (simp add: kpi_def)
qed

section \<open>Lemmas on the cleaner\<close>

subsection \<open>_convert_dates\<close>

lemma isna_notna: "isna_count ds + notna_count ds = length ds"
  unfolding isna_count_def notna_count_def by (rule sum_length_filter_compl)

lemma try_formats_candidate:
  "try_formats L s fmts conv = conv
   \<or> (\<exists>fmt\<in>set fmts. to_datetime_format L fmt s = Some (try_formats L s fmts conv))"
proof (induction fmts arbitrary: conv)
  case Nil
  then show ?case by simp
next
  case (Cons f fs)
  show ?case
  proof (cases "to_datetime_format L f s")
    case None
    with Cons [of conv] show ?thesis by auto
  next
    case (Some a)
    with Cons [of "if notna_count conv < notna_count a then a else conv"]
    show ?thesis by (auto split: if_splits)
  qed
qed

lemma try_formats_mono: "notna_count conv \<le> notna_count (try_formats L s fmts conv)"
proof (induction fmts arbitrary: conv)
  case Nil
  then show ?case by simp
next
  case (Cons f fs)
  show ?case
  proof (cases "to_datetime_format L f s")
    case None
    with Cons [of conv] show ?thesis by simp
  next
    case (Some a)
    with Cons [of "if notna_count conv < notna_count a then a else conv"]
    show ?thesis by (auto split: if_splits)
  qed
qed

lemma try_formats_best:
  "fmt \<in> set fmts \<Longrightarrow> to_datetime_format L fmt s = Some a
     \<Longrightarrow> notna_count a \<le> notna_count (try_formats L s fmts conv)"
proof (induction fmts arbitrary: conv)
  case Nil
  then show ?case by simp
next
  case (Cons f fs)
  show ?case
  proof (cases "fmt = f")
    case True
    define best where "best = (if notna_count conv < notna_count a then a else conv)"
    from True Cons.prems
    have "try_formats L s (f # fs) conv = try_formats L s fs best"
      by (simp add: best_def)
    moreover have "notna_count a \<le> notna_count best"
      by (simp add: best_def)
    moreover note try_formats_mono [of best L s fs]
    ultimately show ?thesis
      by simp
  next
    case False
    with Cons.prems have "fmt \<in> set fs" by simp
    from Cons.IH [OF this Cons.prems(2)] show ?thesis
      by (cases "to_datetime_format L f s") auto
  qed
qed

lemma try_formats_length:
  assumes "parsers_ok L" "length conv = length s"
  shows "length (try_formats L s fmts conv) = length s"
  using try_formats_candidate [of L s fmts conv] assms
  by (auto simp: parsers_ok_def)

text \<open>The test \<^verbatim>\<open>nat_ratio > 0.5\<close> in whole numbers.\<close>

lemma nat_ratio_half:
  "(1 / 2 < nat_ratio conv s) = (max (length s) 1 < 2 * isna_count conv)"
proof -
  have "(0::rat) < of_nat (max (length s) 1)" by simp
  then have "(1 / 2 < nat_ratio conv s)
      = ((of_nat (max (length s) 1) :: rat) < 2 * of_nat (isna_count conv))"
    unfolding nat_ratio_def by (simp add: field_simps)
  also have "\<dots> = ((of_nat (max (length s) 1) :: rat) < of_nat (2 * isna_count conv))"
    by simp
  also have "\<dots> = (max (length s) 1 < 2 * isna_count conv)"
    by (rule of_nat_less_iff)
  finally show ?thesis .
qed

lemma convert_dates_low:
  "\<not> 1 / 2 < nat_ratio (to_datetime L s) s \<Longrightarrow> fst (convert_dates L s) = to_datetime L s"
  by (simp add: convert_dates_def Let_def)

lemma convert_dates_high:
  "1 / 2 < nat_ratio (to_datetime L s) s
     \<Longrightarrow> fst (convert_dates L s) = try_formats L s DATE_FORMATS (to_datetime L s)"
  by (simp add: convert_dates_def Let_def)

lemma convert_dates_length:
  assumes "parsers_ok L"
  shows "length (fst (convert_dates L s)) = length s"
proof -
  from assms have "length (to_datetime L s) = length s"
    by (simp add: parsers_ok_def)
  with try_formats_length [OF assms this] show ?thesis
    by (simp add: convert_dates_def Let_def)
qed

lemma convert_dates_full:
  assumes ok: "parsers_ok L"
    and high: "1 / 2 < nat_ratio (to_datetime L s) s"
    and fmt: "fmt \<in> set DATE_FORMATS" "to_datetime_format L fmt s = Some a" "isna_count a = 0"
  shows "isna_count (fst (convert_dates L s)) = 0 \<and> snd (convert_dates L s) = 0"
proof -
  let ?c = "fst (convert_dates L s)"
  from ok fmt(2) have "length a = length s"
    by (auto simp: parsers_ok_def)
  with fmt(3) isna_notna [of a] have "notna_count a = length s"
    by simp
  moreover from try_formats_best [OF fmt(1,2)] high
  have "notna_count a \<le> notna_count ?c"
    by (simp add: convert_dates_high)
  moreover from isna_notna [of ?c] convert_dates_length [OF ok, of s]
  have "isna_count ?c + notna_count ?c = length s"
    by simp
  ultimately have z: "isna_count ?c = 0"
    by linarith
  then have "snd (convert_dates L s) = 0"
    by (simp add: convert_dates_def Let_def)
  with z show ?thesis by simp
qed

subsection \<open>The passes row by row\<close>

lemma update_columns_map:
  "update_columns f names cols rs = map (update_row f names cols) rs"
proof (induction names arbitrary: rs)
  case Nil
  then show ?case by (simp add: update_columns_def update_row_def)
next
  case (Cons n ns)
  have "update_columns f (n # ns) cols rs
          = update_columns f ns cols
              (if n \<in> set cols then map (\<lambda>r. r(n := f (r n))) rs else rs)"
    by (simp add: update_columns_def)
  also have "\<dots> = map (update_row f (n # ns) cols) rs"
    by (simp add: Cons update_row_def)
  finally show ?case .
qed

lemma update_row_other: "c \<notin> set names \<Longrightarrow> update_row f names cols r c = r c"
  unfolding update_row_def by (induction names arbitrary: r) auto

lemma update_row_hit:
  "distinct names \<Longrightarrow> c \<in> set names \<Longrightarrow> c \<in> set cols
     \<Longrightarrow> update_row f names cols r c = f (r c)"
  unfolding update_row_def
proof (induction names arbitrary: r)
  case Nil
  then show ?case by simp
next
  case (Cons n ns)
  show ?case
  proof (cases "c = n")
    case True
    with Cons.prems have "c \<notin> set ns" by simp
    from update_row_other [OF this, unfolded update_row_def] True Cons.prems show ?thesis
      by simp
  next
    case False
    with Cons show ?thesis by simp
  qed
qed

lemma clean_rows:
  "rows (fst (clean L df))
     = map (finish_row L (columns df))
         (filter (required_kept L (columns df))
            (step_dates L (columns df) (step_duplicates (columns df) (rows df))))"
  by (simp add: clean_def Let_def step_bucket_def step_text_def step_fill_def step_required_def
      step_numeric_def update_columns_map finish_row_def [abs_def] required_kept_def [abs_def]
      numeric_row_def bucket_row_def [abs_def] filter_map comp_def)

lemma finish_row_untouched: "c \<notin> touched \<Longrightarrow> finish_row L cols r c = r c"
  by (simp add: finish_row_def bucket_row_def numeric_row_def update_row_other touched_def
      TEXT_COLUMNS_def)


lemma finish_row_revenue:
  "''revenue'' \<in> set cols \<Longrightarrow> finish_row L cols r ''revenue'' = clean_numeric L (r ''revenue'')"
  by (simp add: finish_row_def bucket_row_def update_row_other TEXT_COLUMNS_def numeric_row_def
      update_row_hit)

lemma finish_row_date: "finish_row L cols r ''date'' = r ''date''"
  by (simp add: finish_row_def bucket_row_def update_row_other TEXT_COLUMNS_def numeric_row_def)

lemma finish_row_bucket:
  "''date'' \<in> set cols \<Longrightarrow> finish_row L cols r ''year_month'' = year_month_of (r ''date'')"
  by (simp add: finish_row_def bucket_row_def update_row_other TEXT_COLUMNS_def numeric_row_def)

lemma set_dates_source:
  "r' \<in> set (set_dates L rs) \<Longrightarrow> \<exists>r\<in>set rs. \<forall>c. c \<noteq> ''date'' \<longrightarrow> r' c = r c"
  unfolding set_dates_def by (auto dest!: set_zip_leftD)

lemma step_dates_source:
  assumes "r' \<in> set (step_dates L cols rs)"
  shows "(''date'' \<in> set cols \<longrightarrow> r' ''date'' \<noteq> Null)
         \<and> (\<exists>r\<in>set rs. \<forall>c. c \<noteq> ''date'' \<longrightarrow> r' c = r c)"
proof (cases "''date'' \<in> set cols")
  case True
  with assms have "r' \<in> set (set_dates L rs)" "r' ''date'' \<noteq> Null"
    by (simp_all add: step_dates_def)
  with set_dates_source [of r' L rs] True show ?thesis by blast
next
  case False
  with assms show ?thesis by (auto simp: step_dates_def)
qed

subsection \<open>drop_duplicates\<close>

lemma drop_duplicates_first_source:
  "r \<in> set (drop_duplicates_first c seen rs) \<Longrightarrow>
     r c \<notin> set seen \<and> (\<exists>i<length rs. rs ! i = r \<and> (\<forall>j<i. (rs ! j) c \<noteq> r c))"
proof (induction rs arbitrary: seen)
  case Nil
  then show ?case by simp
next
  case (Cons r0 rs)
  show ?case
  proof (cases "r0 c \<in> set seen")
    case True
    with Cons.prems have "r \<in> set (drop_duplicates_first c seen rs)" by simp
    from Cons.IH [OF this] obtain i where i: "r c \<notin> set seen" "i < length rs" "rs ! i = r"
      "\<forall>j<i. (rs ! j) c \<noteq> r c" by blast
    from True i(1) have "r0 c \<noteq> r c" by auto
    with i have "Suc i < length (r0 # rs) \<and> (r0 # rs) ! Suc i = r
                 \<and> (\<forall>j<Suc i. ((r0 # rs) ! j) c \<noteq> r c)"
      by (auto simp: less_Suc_eq_0_disj)
    with i(1) show ?thesis by blast
  next
    case False
    with Cons.prems
    consider "r = r0" | "r \<in> set (drop_duplicates_first c (r0 c # seen) rs)"
      by auto
    then show ?thesis
    proof cases
      case 1
      with False have "r c \<notin> set seen \<and> 0 < length (r0 # rs) \<and> (r0 # rs) ! 0 = r
          \<and> (\<forall>j<0. ((r0 # rs) ! j) c \<noteq> r c)"
        by simp
      then show ?thesis by blast
    next
      case 2
      from Cons.IH [OF this] obtain i where i: "r c \<notin> set (r0 c # seen)" "i < length rs"
        "rs ! i = r" "\<forall>j<i. (rs ! j) c \<noteq> r c" by blast
      then have "Suc i < length (r0 # rs) \<and> (r0 # rs) ! Suc i = r
                 \<and> (\<forall>j<Suc i. ((r0 # rs) ! j) c \<noteq> r c)"
        by (auto simp: less_Suc_eq_0_disj)
      with i(1) show ?thesis by auto
    qed
  qed
qed

lemma drop_duplicates_first_distinct:
  "distinct (map (\<lambda>r. r c) (drop_duplicates_first c seen rs))"
proof (induction rs arbitrary: seen)
  case Nil
  then show ?case by simp
next
  case (Cons r0 rs)
  show ?case
  proof (cases "r0 c \<in> set seen")
    case True
    with Cons show ?thesis by simp
  next
    case False
    have "r0 c \<notin> (\<lambda>r. r c) ` set (drop_duplicates_first c (r0 c # seen) rs)"
      using drop_duplicates_first_source [of _ c "r0 c # seen" rs] by force
    with False Cons show ?thesis by simp
  qed
qed

lemma drop_duplicates_first_keys:
  "(\<lambda>r. r c) ` set (drop_duplicates_first c seen rs) = (\<lambda>r. r c) ` set rs - set seen"
  by (induction rs arbitrary: seen) auto

subsection \<open>The date pass\<close>

lemma set_dates_col:
  "c \<noteq> ''date'' \<Longrightarrow>
     map (\<lambda>r. r c) (set_dates L rs)
       = take (length (fst (convert_dates L (map (\<lambda>r. r ''date'') rs)))) (map (\<lambda>r. r c) rs)"
proof -
  assume c: "c \<noteq> ''date''"
  let ?ds = "fst (convert_dates L (map (\<lambda>r. r ''date'') rs))"
  from c have "map (\<lambda>r. r c) (set_dates L rs) = map (\<lambda>r. r c) (map fst (zip rs ?ds))"
    by (simp add: set_dates_def split_def)
  also have "\<dots> = take (length ?ds) (map (\<lambda>r. r c) rs)"
    by (simp add: map_fst_zip_take take_map min_def)
  finally show ?thesis .
qed

lemma set_dates_date:
  "length (fst (convert_dates L (map (\<lambda>r. r ''date'') rs))) = length rs \<Longrightarrow>
     map (\<lambda>r. r ''date'') (set_dates L rs)
       = map date_cell (fst (convert_dates L (map (\<lambda>r. r ''date'') rs)))"
proof -
  let ?ds = "fst (convert_dates L (map (\<lambda>r. r ''date'') rs))"
  assume l: "length ?ds = length rs"
  have "map (\<lambda>r. r ''date'') (set_dates L rs) = map date_cell (map snd (zip rs ?ds))"
    by (simp add: set_dates_def split_def)
  with l show ?thesis by simp
qed

lemma date_cell_Null: "(date_cell d = Null) = (d = None)"
  by (cases d) (simp_all add: date_cell_def)

lemma step_dates_length:
  assumes "parsers_ok L" "''date'' \<in> set cols"
  shows "length (step_dates L cols rs)
           = notna_count (fst (convert_dates L (map (\<lambda>r. r ''date'') rs)))"
proof -
  let ?ds = "fst (convert_dates L (map (\<lambda>r. r ''date'') rs))"
  from convert_dates_length [OF assms(1), of "map (\<lambda>r. r ''date'') rs"]
  have l: "length ?ds = length rs" by simp
  have "length (step_dates L cols rs)
          = length (filter (\<lambda>v. v \<noteq> Null) (map (\<lambda>r. r ''date'') (set_dates L rs)))"
    using assms(2) by (simp add: step_dates_def filter_map comp_def)
  also have "\<dots> = length (filter (\<lambda>v. v \<noteq> Null) (map date_cell ?ds))"
    by (simp only: set_dates_date [OF l])
  also have "\<dots> = notna_count ?ds"
    by (simp add: filter_map comp_def date_cell_Null notna_count_def)
  finally show ?thesis .
qed

lemma required_kept_dated:
  assumes "''date'' \<in> set cols" "r ''date'' \<noteq> Null"
  shows "required_kept L cols r"
proof -
  have "numeric_row L cols r ''date'' = r ''date''"
    by (simp add: numeric_row_def update_row_other)
  with assms show ?thesis
    by (auto simp: required_kept_def Let_def REQUIRED_COLUMNS_def list_all_iff)
qed

lemma clean_rows_dated:
  assumes "''date'' \<in> set (columns df)"
  shows "rows (fst (clean L df))
     = map (finish_row L (columns df))
         (step_dates L (columns df) (step_duplicates (columns df) (rows df)))"
proof -
  have "filter (required_kept L (columns df))
          (step_dates L (columns df) (step_duplicates (columns df) (rows df)))
        = step_dates L (columns df) (step_duplicates (columns df) (rows df))"
    using assms step_dates_source required_kept_dated
    by (intro filter_True) blast
  then show ?thesis by (simp add: clean_rows)
qed

subsection \<open>Where a cleaned row comes from\<close>

lemma clean_row_origin:
  assumes "r' \<in> set (rows (fst (clean L df)))"
  obtains r2 r1 where "r' = finish_row L (columns df) r2"
    and "r1 \<in> set (step_duplicates (columns df) (rows df))"
    and "\<forall>c. c \<noteq> ''date'' \<longrightarrow> r2 c = r1 c"
proof -
  from assms obtain r2 where r2: "r' = finish_row L (columns df) r2"
    "r2 \<in> set (step_dates L (columns df) (step_duplicates (columns df) (rows df)))"
    by (auto simp: clean_rows)
  from step_dates_source [OF r2(2)] obtain r1
    where "r1 \<in> set (step_duplicates (columns df) (rows df))" "\<forall>c. c \<noteq> ''date'' \<longrightarrow> r2 c = r1 c"
    by blast
  with r2(1) that show ?thesis by blast
qed



section \<open>Date recovery (C9)\<close>

lemma parsers_ok_lib0: "parsers_ok lib0"
  by (simp add: parsers_ok_def lib0_def)

text \<open>
  C9. \<open>_convert_dates\<close> first parses the whole column with the general parser. When
  the unparsable fraction is at most one half the general parse is the result. When it
  exceeds one half, the formats of \<open>DATE_FORMATS\<close> are tried in turn and the result is
  the general parse or the parse of one of the formats, with a count of parsed values
  that is at least that of the general parse and of every format that did not raise. In
  particular, if then the format day-month-year parses every value, no value of the result
  is unparsable and the count of invalid dates is 0. In \<open>clean\<close> the rows whose date
  is still unparsable are dropped: the rows that remain are as many as the parsed values,
  and each has a date.
\<close>

theorem date_recovery:
  assumes "parsers_ok L"
  shows "(\<not> 1 / 2 < nat_ratio (to_datetime L s) s
            \<longrightarrow> fst (convert_dates L s) = to_datetime L s)
    \<and> (1 / 2 < nat_ratio (to_datetime L s) s
         \<longrightarrow> (fst (convert_dates L s) = to_datetime L s
              \<or> (\<exists>fmt\<in>set DATE_FORMATS.
                    to_datetime_format L fmt s = Some (fst (convert_dates L s))))
           \<and> notna_count (to_datetime L s) \<le> notna_count (fst (convert_dates L s))
           \<and> (\<forall>fmt\<in>set DATE_FORMATS. \<forall>a. to_datetime_format L fmt s = Some a
                 \<longrightarrow> notna_count a \<le> notna_count (fst (convert_dates L s))))
    \<and> (1 / 2 < nat_ratio (to_datetime L s) s
         \<and> to_datetime_format L ''%d-%m-%Y'' s = Some dmy \<and> isna_count dmy = 0
         \<longrightarrow> isna_count (fst (convert_dates L s)) = 0 \<and> snd (convert_dates L s) = 0)
    \<and> (''date'' \<in> set (columns df)
         \<longrightarrow> (\<forall>r\<in>set (rows (fst (clean L df))). r ''date'' \<noteq> Null)
           \<and> length (rows (fst (clean L df)))
               = notna_count (fst (convert_dates L
                   (map (\<lambda>r. r ''date'') (step_duplicates (columns df) (rows df))))))"
proof -
  let ?gen = "to_datetime L s"
  let ?conv = "fst (convert_dates L s)"
  have low: "\<not> 1 / 2 < nat_ratio ?gen s \<Longrightarrow> ?conv = ?gen"
    by (rule convert_dates_low)
  have high: "(?conv = ?gen \<or> (\<exists>fmt\<in>set DATE_FORMATS. to_datetime_format L fmt s = Some ?conv))
           \<and> notna_count ?gen \<le> notna_count ?conv
           \<and> (\<forall>fmt\<in>set DATE_FORMATS. \<forall>a. to_datetime_format L fmt s = Some a
                 \<longrightarrow> notna_count a \<le> notna_count ?conv)"
    if h: "1 / 2 < nat_ratio ?gen s"
    using try_formats_candidate [of L s DATE_FORMATS ?gen]
      try_formats_mono [of ?gen L s DATE_FORMATS] try_formats_best [of _ DATE_FORMATS L s _ ?gen]
    unfolding convert_dates_high [OF h] by blast
  have full: "isna_count ?conv = 0 \<and> snd (convert_dates L s) = 0"
    if "1 / 2 < nat_ratio ?gen s \<and> to_datetime_format L ''%d-%m-%Y'' s = Some dmy
        \<and> isna_count dmy = 0"
  proof -
    have m: "''%d-%m-%Y'' \<in> set DATE_FORMATS"
      by (simp add: DATE_FORMATS_def)
    from that have h: "1 / 2 < nat_ratio ?gen s"
      and p: "to_datetime_format L ''%d-%m-%Y'' s = Some dmy" and z: "isna_count dmy = 0"
      by simp_all
    from convert_dates_full [OF assms h m p z] show ?thesis .
  qed
  have dropped: "(\<forall>r\<in>set (rows (fst (clean L df))). r ''date'' \<noteq> Null)
           \<and> length (rows (fst (clean L df)))
               = notna_count (fst (convert_dates L
                   (map (\<lambda>r. r ''date'') (step_duplicates (columns df) (rows df)))))"
    if d: "''date'' \<in> set (columns df)"
  proof -
    have "\<forall>r\<in>set (rows (fst (clean L df))). r ''date'' \<noteq> Null"
      using d step_dates_source [of _ L "columns df"]
      by (auto simp: clean_rows_dated [OF d] finish_row_date)
    moreover have "length (rows (fst (clean L df)))
               = notna_count (fst (convert_dates L
                   (map (\<lambda>r. r ''date'') (step_duplicates (columns df) (rows df)))))"
      by (simp add: clean_rows_dated [OF d] step_dates_length [OF assms d])
    ultimately show ?thesis by blast
  qed
  from low high full dropped show ?thesis by blast
qed

theorem date_recovery_witness:
  "parsers_ok lib0
   \<and> 1 / 2 < nat_ratio (to_datetime lib0 (col_values ''date'' day_first_dates))
               (col_values ''date'' day_first_dates)
   \<and> to_datetime_format lib0 ''%d-%m-%Y'' (col_values ''date'' day_first_dates)
       = Some [Some (2024, 2, 1, 0), Some (2024, 2, 13, 0), Some (2024, 2, 14, 0)]
   \<and> isna_count (fst (convert_dates lib0 (col_values ''date'' day_first_dates))) = 0
   \<and> snd (convert_dates lib0 (col_values ''date'' day_first_dates)) = 0
   \<and> ''date'' \<in> set (columns day_first_dates)
   \<and> length (rows (fst (clean lib0 day_first_dates))) = 3
   \<and> col_values ''date'' (fst (clean lib0 day_first_dates))
       = [Date (2024, 2, 1, 0), Date (2024, 2, 13, 0), Date (2024, 2, 14, 0)]"
proof -
  let ?s = "col_values ''date'' day_first_dates"
  let ?dmy = "[Some (2024, 2, 1, 0), Some (2024, 2, 13, 0), Some (2024, 2, 14, 0)]"
  have r: "1 / 2 < nat_ratio (to_datetime lib0 ?s) ?s"
    by code_simp
  have f: "to_datetime_format lib0 ''%d-%m-%Y'' ?s = Some ?dmy"
    by code_simp
  have z: "isna_count ?dmy = 0"
    by (simp add: isna_count_def)
  have d: "''date'' \<in> set (columns day_first_dates)"
    by (simp add: day_first_dates_def)
  have n: "notna_count (fst (convert_dates lib0
             (map (\<lambda>r. r ''date'')
                (step_duplicates (columns day_first_dates) (rows day_first_dates))))) = 3"
    by code_simp
  have v: "col_values ''date'' (fst (clean lib0 day_first_dates))
             = [Date (2024, 2, 1, 0), Date (2024, 2, 13, 0), Date (2024, 2, 14, 0)]"
    by code_simp
  from date_recovery [OF parsers_ok_lib0, of ?s ?dmy day_first_dates] r f z d n v
       parsers_ok_lib0
  show ?thesis by simp
qed

section \<open>Text normalization (C8)\<close>





section \<open>Duplicate collapse (C4)\<close>

text \<open>
  C4 as stated fails: the duplicates are removed before the dates are checked. When the
  first row of an \<open>order_id\<close> has no valid date, that row is dropped by the date pass
  and the later, valid row of the same \<open>order_id\<close> is already gone: no row of the
  \<open>order_id\<close> is left, instead of exactly one.
\<close>

theorem undated_first_counterexample:
  "''order_id'' \<in> set (columns undated_first)
   \<and> col_values ''order_id'' undated_first = [Str ''X'', Str ''X'']
   \<and> col_values ''date'' undated_first = [Null, Date (2024, 1, 5, 0)]
   \<and> col_values ''order_id'' (fst (clean lib0 undated_first)) = []
   \<and> final_rows (snd (clean lib0 undated_first)) = 0"
proof -
  have a: "col_values ''order_id'' (fst (clean lib0 undated_first)) = []"
    by code_simp
  have b: "final_rows (snd (clean lib0 undated_first)) = 0"
    by code_simp
  show ?thesis
    unfolding a b by (simp add: col_values_def undated_first_def mk_row_def)
qed

text \<open>
  C4, amended. For every mapped table with an \<open>order_id\<close> column: no two rows of the
  cleaned table share an \<open>order_id\<close>; every cleaned row comes from the first input row
  (in input order) with its \<open>order_id\<close>, never from a later one: it has that row's
  values in every column that no pass rewrites and that row's revenue, made numeric; and
  when the table has a \<open>date\<close> column and every date of the de-duplicated table
  parses, every \<open>order_id\<close> of the input keeps its row. (A first row that a later pass
  drops leaves no row for its \<open>order_id\<close>.)
\<close>

theorem duplicate_collapse:
  assumes "''order_id'' \<in> set (columns df)"
  shows "distinct (col_values ''order_id'' (fst (clean L df)))
    \<and> (\<forall>r'\<in>set (rows (fst (clean L df))). \<exists>i<length (rows df).
           (\<forall>j<i. (rows df ! j) ''order_id'' \<noteq> (rows df ! i) ''order_id'')
           \<and> (\<forall>c. c \<notin> touched \<longrightarrow> r' c = (rows df ! i) c)
           \<and> (''revenue'' \<in> set (columns df)
                \<longrightarrow> r' ''revenue'' = clean_numeric L ((rows df ! i) ''revenue'')))
    \<and> (''date'' \<in> set (columns df) \<and> parsers_ok L
         \<and> isna_count (fst (convert_dates L
              (map (\<lambda>r. r ''date'') (step_duplicates (columns df) (rows df))))) = 0
        \<longrightarrow> set (col_values ''order_id'' (fst (clean L df))) = set (col_values ''order_id'' df))"
proof -
  let ?cols = "columns df"
  let ?rs1 = "step_duplicates ?cols (rows df)"
  let ?oid = "\<lambda>r::row. r ''order_id''"
  have nt: "''order_id'' \<notin> touched"
    by (simp add: touched_def TEXT_COLUMNS_def)
  have rs1: "?rs1 = drop_duplicates_first ''order_id'' [] (rows df)"
    using assms by (simp add: step_duplicates_def)
  \<comment> \<open>no two rows share an order_id\<close>
  have d1: "distinct (map ?oid ?rs1)"
    unfolding rs1 by (rule drop_duplicates_first_distinct)
  have d2: "distinct (map ?oid (step_dates L ?cols ?rs1))"
  proof (cases "''date'' \<in> set ?cols")
    case True
    have "distinct (map ?oid (set_dates L ?rs1))"
      using d1 by (simp add: set_dates_col)
    then show ?thesis
      using True by (simp add: step_dates_def distinct_map_filter)
  next
    case False
    with d1 show ?thesis by (simp add: step_dates_def)
  qed
  have "map ?oid (rows (fst (clean L df)))
          = map ?oid (filter (required_kept L ?cols) (step_dates L ?cols ?rs1))"
    using nt by (simp add: clean_rows finish_row_untouched)
  with d2 have a: "distinct (col_values ''order_id'' (fst (clean L df)))"
    by (simp add: col_values_def distinct_map_filter)
  \<comment> \<open>every row comes from a first occurrence\<close>
  have b: "\<exists>i<length (rows df).
           (\<forall>j<i. (rows df ! j) ''order_id'' \<noteq> (rows df ! i) ''order_id'')
           \<and> (\<forall>c. c \<notin> touched \<longrightarrow> r' c = (rows df ! i) c)
           \<and> (''revenue'' \<in> set ?cols
                \<longrightarrow> r' ''revenue'' = clean_numeric L ((rows df ! i) ''revenue''))"
    if "r' \<in> set (rows (fst (clean L df)))" for r'
  proof -
    from that obtain r2 r1 where o: "r' = finish_row L ?cols r2"
      "r1 \<in> set ?rs1" "\<forall>c. c \<noteq> ''date'' \<longrightarrow> r2 c = r1 c"
      by (rule clean_row_origin)
    from o(2) drop_duplicates_first_source [of r1 "''order_id''" "[]" "rows df"]
    obtain i where i: "i < length (rows df)" "rows df ! i = r1"
      "\<forall>j<i. (rows df ! j) ''order_id'' \<noteq> r1 ''order_id''"
      unfolding rs1 by blast
    have "\<forall>c. c \<notin> touched \<longrightarrow> r' c = r1 c"
      using o(1,3) by (auto simp: finish_row_untouched touched_def)
    moreover have "''revenue'' \<in> set ?cols \<longrightarrow> r' ''revenue'' = clean_numeric L (r1 ''revenue'')"
      using o(1,3) by (simp add: finish_row_revenue)
    ultimately show ?thesis using i by blast
  qed
  \<comment> \<open>all first occurrences stay when every date parses\<close>
  have c: "set (col_values ''order_id'' (fst (clean L df))) = set (col_values ''order_id'' df)"
    if k: "''date'' \<in> set ?cols \<and> parsers_ok L
         \<and> isna_count (fst (convert_dates L (map (\<lambda>r. r ''date'') ?rs1))) = 0"
  proof -
    let ?ds = "fst (convert_dates L (map (\<lambda>r. r ''date'') ?rs1))"
    from k have dt: "''date'' \<in> set ?cols" and ok: "parsers_ok L" and z: "isna_count ?ds = 0"
      by simp_all
    from convert_dates_length [OF ok, of "map (\<lambda>r. r ''date'') ?rs1"]
    have l: "length ?ds = length ?rs1" by simp
    have "length (step_dates L ?cols ?rs1) = notna_count ?ds"
      by (rule step_dates_length [OF ok dt])
    with z isna_notna [of ?ds] l
    have "length (filter (\<lambda>r. r ''date'' \<noteq> Null) (set_dates L ?rs1)) = length (set_dates L ?rs1)"
      using dt by (simp add: step_dates_def set_dates_def)
    then have "\<forall>r\<in>set (set_dates L ?rs1). r ''date'' \<noteq> Null"
      using length_filter_less [of _ "set_dates L ?rs1" "\<lambda>r. r ''date'' \<noteq> Null"]
      by fastforce
    then have "step_dates L ?cols ?rs1 = set_dates L ?rs1"
      using dt by (simp add: step_dates_def)
    then have "map ?oid (rows (fst (clean L df))) = map ?oid (set_dates L ?rs1)"
      using nt by (simp add: clean_rows_dated [OF dt] finish_row_untouched)
    also have "\<dots> = map ?oid ?rs1"
      using l by (simp add: set_dates_col)
    finally have "set (col_values ''order_id'' (fst (clean L df))) = ?oid ` set ?rs1"
      by (simp add: col_values_def)
    also have "\<dots> = ?oid ` set (rows df)"
      unfolding rs1 by (simp add: drop_duplicates_first_keys)
    finally show ?thesis
      by (simp add: col_values_def)
  qed
  from a b c show ?thesis by blast
qed

theorem duplicate_collapse_witness:
  "''order_id'' \<in> set (columns repeated_order)
   \<and> col_values ''order_id'' repeated_order = [Str ''X'', Str ''X'', Str ''Y'']
   \<and> distinct (col_values ''order_id'' (fst (clean lib0 repeated_order)))
   \<and> set (col_values ''order_id'' (fst (clean lib0 repeated_order)))
       = set (col_values ''order_id'' repeated_order)
   \<and> col_values ''order_id'' (fst (clean lib0 repeated_order)) = [Str ''X'', Str ''Y'']
   \<and> col_values ''revenue'' (fst (clean lib0 repeated_order)) = [Num 10, Num 30]
   \<and> col_values ''note'' (fst (clean lib0 repeated_order)) = [Str ''first'', Str ''third'']"
proof -
  have o: "''order_id'' \<in> set (columns repeated_order)"
    "''date'' \<in> set (columns repeated_order)"
    by (simp_all add: repeated_order_def)
  have z: "isna_count (fst (convert_dates lib0
             (map (\<lambda>r. r ''date'')
                (step_duplicates (columns repeated_order) (rows repeated_order))))) = 0"
    by code_simp
  have v: "col_values ''order_id'' (fst (clean lib0 repeated_order)) = [Str ''X'', Str ''Y'']"
    "col_values ''revenue'' (fst (clean lib0 repeated_order)) = [Num 10, Num 30]"
    "col_values ''note'' (fst (clean lib0 repeated_order)) = [Str ''first'', Str ''third'']"
    by code_simp+
  have i: "col_values ''order_id'' repeated_order = [Str ''X'', Str ''X'', Str ''Y'']"
    by (simp add: col_values_def repeated_order_def mk_row_def)
  from duplicate_collapse [OF o(1), of lib0] o z parsers_ok_lib0
  have "distinct (col_values ''order_id'' (fst (clean lib0 repeated_order)))"
    and "set (col_values ''order_id'' (fst (clean lib0 repeated_order)))
           = set (col_values ''order_id'' repeated_order)"
    by blast+
  with o(1) v i show ?thesis by simp
qed

section \<open>Segment ordering (C5)\<close>

subsection \<open>Insertion sort\<close>












subsection \<open>The partition\<close>

lemma length_swap [simp]: "length (swap xs i j) = length xs"
  by (simp add: swap_def)

lemma length_swap_if_less [simp]: "length (swap_if_less key xs i j) = length xs"
  by (simp add: swap_if_less_def)

lemma length_median_of_three [simp]: "length (median_of_three key xs) = length xs"
  by (simp add: median_of_three_def Let_def)




lemma nth_swap:
  "i < length xs \<Longrightarrow> j < length xs \<Longrightarrow> k < length xs \<Longrightarrow>
   swap xs i j ! k = (if k = j then xs ! i else if k = i then xs ! j else xs ! k)"
  by (simp add: swap_def nth_list_update)






lemma swap_if_less_lower:
  "i < length xs \<Longrightarrow> j < length xs \<Longrightarrow> i \<noteq> j \<Longrightarrow>
   key (swap_if_less key xs i j ! j) \<le> key (xs ! i)"
  by (simp add: swap_if_less_def nth_swap)




subsection \<open>The quicksort loop\<close>




subsection \<open>argsort and nargsort\<close>










subsection \<open>The summary\<close>













lemma two_ties_keep_group_order:
  "map (\<lambda>r. r ''segment'')
     (result_rows (build_segment_summary (npy_aquicksort aheapsort) tied_segments ''channel''))
   = [Str ''a'', Str ''b'']"
  by code_simp








section \<open>The cleaner yields a cleaned table\<close>

lemma clean_columns:
  "columns (fst (clean L df))
     = (if ''date'' \<in> set (columns df) \<and> ''year_month'' \<notin> set (columns df)
        then columns df @ [''year_month''] else columns df)"
  by (simp add: clean_def Let_def)

lemma clean_numeric_float: "is_float (clean_numeric L v)"
  by (simp add: clean_numeric_def Let_def split: option.splits)

lemma fillna0_float: "is_float v \<Longrightarrow> is_float (fillna0 v)"
  by (cases v) (simp_all add: fillna0_def)

lemma year_month_of_not_Null: "year_month_of v \<noteq> Null"
  by (cases v rule: year_month_of.cases) simp_all

lemma finish_row_cost:
  "c \<in> set [''cost'', ''marketing_spend''] \<Longrightarrow> c \<in> set cols
     \<Longrightarrow> finish_row L cols r c = fillna0 (clean_numeric L (r c))"
  by (auto simp: finish_row_def bucket_row_def update_row_other TEXT_COLUMNS_def numeric_row_def
      update_row_hit)

text \<open>What \<open>clean\<close> hands to the aggregations is a cleaned table in the sense of C1.\<close>

lemma clean_gives_clean_table:
  assumes "list_all (\<lambda>c. c \<in> set (columns df)) [''date'', ''revenue'', ''order_id'', ''customer_id'']"
  shows "clean_table (fst (clean L df))"
proof -
  let ?out = "fst (clean L df)"
  from assms have c: "''date'' \<in> set (columns df)" "''revenue'' \<in> set (columns df)"
    "''order_id'' \<in> set (columns df)" "''customer_id'' \<in> set (columns df)"
    by simp_all
  have cols: "set (columns ?out) = insert ''year_month'' (set (columns df))"
    using c(1) by (auto simp: clean_columns)
  have ym: "r ''year_month'' \<noteq> Null" if "r \<in> set (rows ?out)" for r
    using that c(1) by (auto simp: clean_rows finish_row_bucket year_month_of_not_Null)
  have rev: "is_float (r ''revenue'')" if "r \<in> set (rows ?out)" for r
    using that c(2) by (auto simp: clean_rows finish_row_revenue clean_numeric_float)
  have opt: "is_float (r x)"
    if "r \<in> set (rows ?out)" "x \<in> set [''cost'', ''marketing_spend'']" "x \<in> set (columns df)"
    for r x
    using that by (auto simp: clean_rows finish_row_cost fillna0_float clean_numeric_float)
  from cols c ym rev opt show ?thesis
    unfolding clean_table_def float_col_def list_all_iff by auto
qed

end
